theory Spec2Isabelle
  imports
    Complex_Main
    "HOL-Library.Word"
    "HOL-Library.Char_ord"
    "HOL-Library.List_Lexorder"
    "HOL-Library.Product_Lexorder"
begin

section \<open>The full-stack todo backend: data model\<close>

text \<open>
  The development embeds \<^verbatim>\<open>fullstack-todo-app/backend/app\<close>: the keyword extractor
  (\<^verbatim>\<open>utils/auto_tags.py\<close>), the todo service (\<^verbatim>\<open>services/todo_service.py\<close>), the
  token functions (\<^verbatim>\<open>security/jwt.py\<close>), the authentication service
  (\<^verbatim>\<open>services/auth_service.py\<close>), the request dependencies, the exception handlers
  and the endpoints that wrap them.

  Conventions.
  \<^item> A \<^verbatim>\<open>UUID\<close> is a 128-bit word.
  \<^item> A \<^verbatim>\<open>datetime\<close> is an integer: microseconds since the epoch, UTC. Every call of
    \<^verbatim>\<open>datetime.now\<close>, \<^verbatim>\<open>date.today\<close> and \<^verbatim>\<open>uuid4\<close> is an explicit argument of the
    function that makes it.
  \<^item> A database table is the list of its rows; a query filters the list.
  \<^item> A raised exception is the \<open>Inl\<close> of a sum.
\<close>

type_synonym uuid = "128 word"
type_synonym datetime = int

datatype TodoStatus = PENDING | IN_PROGRESS | COMPLETED
datatype Priority = LOW | MEDIUM | HIGH

text \<open>
  \<^verbatim>\<open>utils/exceptions.py\<close>: the subclasses of \<^verbatim>\<open>AppException\<close> carry a message and fix the
  status code. \<^verbatim>\<open>TokenError\<close> is the one exception class of \<^verbatim>\<open>security/jwt.py\<close>. The
  remaining constructors are the exceptions of Python and of the database layer that the
  modelled paths can raise; none of them is an \<^verbatim>\<open>AppException\<close>.
\<close>

datatype exn =
    AuthenticationError string
  | AuthorizationError string
  | NotFoundError string
  | ConflictError string
  | ValidationError string
  | TokenError string
  | AttributeError
  | ZeroDivisionError
  | IntegrityError
  | DBAPIError
  | MultipleResultsFound

fun is_AppException :: "exn \<Rightarrow> bool" where
  "is_AppException (AuthenticationError m) = True"
| "is_AppException (AuthorizationError m) = True"
| "is_AppException (NotFoundError m) = True"
| "is_AppException (ConflictError m) = True"
| "is_AppException (ValidationError m) = True"
| "is_AppException e = False"

fun message :: "exn \<Rightarrow> string" where
  "message (AuthenticationError m) = m"
| "message (AuthorizationError m) = m"
| "message (NotFoundError m) = m"
| "message (ConflictError m) = m"
| "message (ValidationError m) = m"
| "message (TokenError m) = m"
| "message e = []"

fun status_code :: "exn \<Rightarrow> int" where
  "status_code (AuthenticationError m) = 401"
| "status_code (AuthorizationError m) = 403"
| "status_code (NotFoundError m) = 404"
| "status_code (ConflictError m) = 409"
| "status_code (ValidationError m) = 400"
| "status_code e = 500"

text \<open>\<^verbatim>\<open>models/todo.py\<close>: a row of the table \<^verbatim>\<open>todos\<close>. The column \<^verbatim>\<open>id\<close> is \<open>todo_id\<close>.\<close>

record Todo =
  todo_id :: uuid
  user_id :: uuid
  title :: string
  description :: "string option"
  status :: TodoStatus
  priority :: Priority
  due_date :: "datetime option"
  tags :: "string list"
  created_at :: datetime
  updated_at :: datetime
  deleted_at :: "datetime option"

text \<open>
  \<^verbatim>\<open>models/schemas.py\<close>: the request bodies. \<open>TodoCreate\<close> holds the five fields after
  defaults. In \<open>TodoUpdate\<close> every field has three states, which
  \<^verbatim>\<open>model_dump(exclude_unset=True)\<close> tells apart: \<open>None\<close> is a field the client did not
  send, \<open>Some None\<close> a field sent as \<^verbatim>\<open>null\<close>, \<open>Some (Some v)\<close> a field sent with a value.
\<close>

record TodoCreate =
  c_title :: string
  c_description :: "string option"
  c_status :: TodoStatus
  c_priority :: Priority
  c_due_date :: "datetime option"

record TodoUpdate =
  u_title :: "string option option"
  u_description :: "string option option"
  u_status :: "TodoStatus option option"
  u_priority :: "Priority option option"
  u_due_date :: "datetime option option"

text \<open>The field constraints of the two schemas: \<^verbatim>\<open>Field(min_length=1, max_length=255)\<close>.\<close>

definition TodoCreate_valid :: "TodoCreate \<Rightarrow> bool" where
  "TodoCreate_valid d \<longleftrightarrow> 1 \<le> length (c_title d) \<and> length (c_title d) \<le> 255"

definition TodoUpdate_valid :: "TodoUpdate \<Rightarrow> bool" where
  "TodoUpdate_valid d \<longleftrightarrow>
     (case u_title d of
        Some (Some s) \<Rightarrow> 1 \<le> length s \<and> length s \<le> 255
      | _ \<Rightarrow> True)"

section \<open>The keyword extractor\<close>

text \<open>
  \<^verbatim>\<open>utils/auto_tags.py\<close>. Text is taken as ASCII: \<open>lower\<close>, \<open>isalnum\<close> and \<open>isspace\<close> are
  Python's \<^verbatim>\<open>str.lower\<close>, \<^verbatim>\<open>str.isalnum\<close> and the separators of \<^verbatim>\<open>str.split()\<close> on
  code points below 128. The two tables keep the order of the source; \<^verbatim>\<open>STOP_WORDS\<close> is
  only tested for membership and the dictionary is walked in insertion order.
\<close>

definition STOP_WORDS :: "string list" where
  "STOP_WORDS =
    [''a'', ''an'', ''the'', ''and'', ''or'', ''but'', ''in'', ''on'', ''at'', ''to'',
     ''for'', ''of'', ''with'', ''by'', ''from'', ''is'', ''it'', ''this'', ''that'',
     ''are'', ''was'', ''be'', ''have'', ''has'', ''had'', ''do'', ''does'', ''did'',
     ''will'', ''would'', ''could'', ''should'', ''may'', ''might'', ''can'',
     ''shall'', ''not'', ''no'', ''so'', ''if'', ''then'', ''than'', ''too'', ''very'',
     ''just'', ''about'', ''up'', ''out'', ''all'', ''also'', ''as'', ''into'',
     ''some'', ''my'', ''your'', ''our'', ''their'', ''its'', ''been'', ''being'',
     ''get'', ''got'', ''make'', ''need'', ''want'', ''know'', ''take'', ''come'',
     ''going'', ''thing'', ''things'', ''like'', ''more'', ''only'', ''over'',
     ''such'', ''after'', ''before'', ''between'', ''each'', ''every'', ''own'',
     ''same'', ''other'', ''which'', ''when'', ''where'', ''what'', ''who'', ''how'',
     ''new'', ''now'', ''way'', ''still'', ''use'', ''here'', ''there'']"

definition CATEGORY_KEYWORDS :: "(string \<times> string list) list" where
  "CATEGORY_KEYWORDS =
  [(''work'',
    [''meeting'', ''project'', ''deadline'', ''client'', ''presentation'', ''report'',
     ''office'', ''team'', ''manager'', ''colleague'', ''email'', ''review'',
     ''sprint'', ''standup'', ''stakeholder'', ''deliverable'', ''proposal'',
     ''contract'', ''invoice'', ''milestone'']),
   (''personal'',
    [''family'', ''friend'', ''birthday'', ''gift'', ''hobby'', ''vacation'',
     ''travel'', ''home'', ''house'', ''apartment'', ''pet'', ''dog'', ''cat'',
     ''party'', ''wedding'', ''anniversary'', ''dinner'', ''lunch'']),
   (''finance'',
    [''budget'', ''payment'', ''invoice'', ''tax'', ''salary'', ''expense'',
     ''invest'', ''investment'', ''bank'', ''loan'', ''mortgage'', ''insurance'',
     ''bill'', ''receipt'', ''savings'', ''financial'', ''accounting'', ''refund'']),
   (''health'',
    [''doctor'', ''appointment'', ''exercise'', ''gym'', ''workout'', ''run'',
     ''yoga'', ''meditation'', ''diet'', ''nutrition'', ''medicine'', ''prescription'',
     ''hospital'', ''dentist'', ''therapy'', ''mental'', ''sleep'', ''wellness'',
     ''checkup'', ''vitamin'']),
   (''learning'',
    [''study'', ''course'', ''book'', ''read'', ''reading'', ''learn'', ''training'',
     ''tutorial'', ''lecture'', ''exam'', ''test'', ''homework'', ''assignment'',
     ''research'', ''certificate'', ''class'', ''workshop'', ''seminar'', ''practice'',
     ''skill'']),
   (''tech'',
    [''code'', ''coding'', ''programming'', ''deploy'', ''deployment'', ''server'',
     ''database'', ''api'', ''bug'', ''fix'', ''debug'', ''update'', ''upgrade'',
     ''install'', ''configure'', ''setup'', ''backup'', ''security'', ''test'',
     ''testing'', ''release'', ''feature'', ''software'', ''app'', ''website'']),
   (''urgent'',
    [''urgent'', ''asap'', ''immediately'', ''critical'', ''emergency'', ''important'',
     ''priority'', ''rush'', ''hurry'', ''overdue'']),
   (''shopping'',
    [''buy'', ''purchase'', ''order'', ''shop'', ''shopping'', ''grocery'',
     ''groceries'', ''store'', ''amazon'', ''delivery'']),
   (''errands'',
    [''pickup'', ''dropoff'', ''return'', ''mail'', ''post'', ''laundry'', ''clean'',
     ''cleaning'', ''repair'', ''maintenance'', ''renew''])]"

definition lower_char :: "char \<Rightarrow> char" where
  "lower_char c =
     (let n = (of_char c :: nat) in if 65 \<le> n \<and> n \<le> 90 then char_of (n + 32) else c)"

definition lower :: "string \<Rightarrow> string" where
  "lower s = map lower_char s"

definition isalnum :: "char \<Rightarrow> bool" where
  "isalnum c =
     (let n = (of_char c :: nat)
      in (48 \<le> n \<and> n \<le> 57) \<or> (65 \<le> n \<and> n \<le> 90) \<or> (97 \<le> n \<and> n \<le> 122))"

definition isspace :: "char \<Rightarrow> bool" where
  "isspace c = (let n = (of_char c :: nat) in (9 \<le> n \<and> n \<le> 13) \<or> (28 \<le> n \<and> n \<le> 32))"

text \<open>\<^verbatim>\<open>str.split()\<close>: the maximal runs of characters that are not whitespace.\<close>

fun split_ws :: "string \<Rightarrow> string \<Rightarrow> string list" where
  "split_ws [] cur = (if cur = [] then [] else [cur])"
| "split_ws (c # cs) cur =
     (if isspace c then (if cur = [] then split_ws cs [] else cur # split_ws cs [])
      else split_ws cs (cur @ [c]))"

definition split :: "string \<Rightarrow> string list" where
  "split s = split_ws s []"

text \<open>\<^verbatim>\<open>word in kw\<close> on two strings: \<open>word\<close> occurs in \<open>kw\<close> as a substring.\<close>

fun startswith :: "string \<Rightarrow> string \<Rightarrow> bool" where
  "startswith s [] = True"
| "startswith [] (p # ps) = False"
| "startswith (c # cs) (p # ps) = (c = p \<and> startswith cs ps)"

fun str_contains :: "string \<Rightarrow> string \<Rightarrow> bool" where
  "str_contains [] w = (w = [])"
| "str_contains (c # cs) w = (startswith (c # cs) w \<or> str_contains cs w)"

text \<open>
  The last loop of \<^verbatim>\<open>extract_tags\<close>: it walks the sorted words, appends to \<open>tags\<close> and
  breaks as soon as \<open>tags\<close> has five entries.
\<close>

fun append_words :: "string list \<Rightarrow> string list \<Rightarrow> string list \<Rightarrow> string list" where
  "append_words matched [] tgs = tgs"
| "append_words matched (w # ws) tgs =
     (let tgs' = (if w \<notin> set tgs \<and> \<not> (\<exists>kw \<in> set matched. str_contains kw w)
                  then tgs @ [w] else tgs)
      in if length tgs' \<ge> 5 then tgs' else append_words matched ws tgs')"

definition extract_tags :: "string \<Rightarrow> string option \<Rightarrow> string list" where
  "extract_tags ttl desc =
     (let text = lower ttl @
            (case desc of
               None \<Rightarrow> []
             | Some d \<Rightarrow> if d = [] then [] else '' '' @ lower d);
          words = remdups
            (filter (\<lambda>cleaned. cleaned \<noteq> [] \<and> cleaned \<notin> set STOP_WORDS)
               (map (filter isalnum) (split text)));
          matched_categories =
            map fst (filter (\<lambda>(category, keywords). \<exists>w \<in> set words. w \<in> set keywords)
                       CATEGORY_KEYWORDS);
          significant_words =
            sort (filter (\<lambda>w. length w \<ge> 4 \<and> w \<notin> set STOP_WORDS) words)
      in take 5 (append_words matched_categories significant_words matched_categories))"

section \<open>The todo service\<close>

text \<open>
  \<^verbatim>\<open>services/todo_service.py\<close>. Each method takes the table \<^verbatim>\<open>todos\<close> and, where it
  writes, returns the table after the flush. The primary key makes the ids of a table
  distinct; \<open>create_todo\<close> keeps that (a second row with the key of an existing one is
  refused by the flush), and the theorems below take it as the invariant of the table.
  The foreign key of \<^verbatim>\<open>user_id\<close> is not modelled: the endpoints pass the id of the
  authenticated user.
\<close>

text \<open>\<^verbatim>\<open>Result.scalar_one_or_none\<close>: no row, the one row, or an exception for several.\<close>

fun scalar_one_or_none :: "'a list \<Rightarrow> exn + 'a option" where
  "scalar_one_or_none [] = Inr None"
| "scalar_one_or_none [x] = Inr (Some x)"
| "scalar_one_or_none (x # y # zs) = Inl MultipleResultsFound"

definition get_todo :: "Todo list \<Rightarrow> uuid \<Rightarrow> uuid \<Rightarrow> exn + Todo" where
  "get_todo db tid uid =
     (case scalar_one_or_none
             (filter (\<lambda>t. todo_id t = tid \<and> user_id t = uid \<and> deleted_at t = None) db) of
        Inl e \<Rightarrow> Inl e
      | Inr None \<Rightarrow> Inl (NotFoundError ''Todo not found'')
      | Inr (Some todo) \<Rightarrow> Inr todo)"

text \<open>
  \<open>create_todo\<close>: \<open>new_id\<close> is the value of \<^verbatim>\<open>uuid4()\<close>, \<open>now_created\<close> and \<open>now_updated\<close> are
  the two readings of the clock that fill the column defaults. The flush inserts the row;
  it raises for a key that exists and for a title longer than the column
  (\<^verbatim>\<open>String(255)\<close>).
\<close>

definition create_todo ::
  "Todo list \<Rightarrow> uuid \<Rightarrow> datetime \<Rightarrow> datetime \<Rightarrow> uuid \<Rightarrow> TodoCreate \<Rightarrow> exn + (Todo list \<times> Todo)"
where
  "create_todo db new_id now_created now_updated uid data =
     (let tgs = extract_tags (c_title data) (c_description data);
          todo = \<lparr>todo_id = new_id, user_id = uid, title = c_title data,
                  description = c_description data, status = c_status data,
                  priority = c_priority data, due_date = c_due_date data, tags = tgs,
                  created_at = now_created, updated_at = now_updated, deleted_at = None\<rparr>
      in if new_id \<in> todo_id ` set db then Inl IntegrityError
         else if length (title todo) > 255 then Inl DBAPIError
         else Inr (db @ [todo], todo))"

text \<open>
  \<open>update_todo\<close>. The loop over \<^verbatim>\<open>update_data.items()\<close> assigns every field the client
  sent, \<^verbatim>\<open>null\<close> included. A title sent as \<^verbatim>\<open>null\<close> makes \<^verbatim>\<open>extract_tags\<close> call
  \<^verbatim>\<open>None.lower()\<close>; a status or priority sent as \<^verbatim>\<open>null\<close> reaches the flush and breaks
  the \<^verbatim>\<open>NOT NULL\<close> of the column. Both leave the table as it was (the session is rolled
  back). The flush writes the row with the key of the loaded object.
\<close>

definition set_fields :: "Todo \<Rightarrow> TodoUpdate \<Rightarrow> Todo" where
  "set_fields todo data =
     todo\<lparr>title := (case u_title data of Some (Some v) \<Rightarrow> v | _ \<Rightarrow> title todo),
          description := (case u_description data of Some v \<Rightarrow> v | None \<Rightarrow> description todo),
          status := (case u_status data of Some (Some v) \<Rightarrow> v | _ \<Rightarrow> status todo),
          priority := (case u_priority data of Some (Some v) \<Rightarrow> v | _ \<Rightarrow> priority todo),
          due_date := (case u_due_date data of Some v \<Rightarrow> v | None \<Rightarrow> due_date todo)\<rparr>"

definition update_todo ::
  "Todo list \<Rightarrow> uuid \<Rightarrow> uuid \<Rightarrow> TodoUpdate \<Rightarrow> datetime \<Rightarrow> exn + (Todo list \<times> Todo)"
where
  "update_todo db tid uid data now =
     (case get_todo db tid uid of
        Inl e \<Rightarrow> Inl e
      | Inr todo \<Rightarrow>
          if u_title data = Some None then Inl AttributeError
          else
            let t1 = set_fields todo data;
                t2 = (if u_title data \<noteq> None \<or> u_description data \<noteq> None
                      then t1\<lparr>tags := extract_tags (title t1) (description t1)\<rparr> else t1);
                t3 = t2\<lparr>updated_at := now\<rparr>
            in if u_status data = Some None \<or> u_priority data = Some None
               then Inl IntegrityError
               else if length (title t3) > 255 then Inl DBAPIError
               else Inr (map (\<lambda>r. if todo_id r = todo_id todo then t3 else r) db, t3))"

text \<open>
  \<open>soft_delete_todo\<close> sets \<^verbatim>\<open>deleted_at\<close> to \<open>now\<close>. The flush is an \<^verbatim>\<open>UPDATE\<close> that does
  not set \<^verbatim>\<open>updated_at\<close>, so the column's \<^verbatim>\<open>onupdate\<close> (\<^verbatim>\<open>models/todo.py\<close>) fills it with
  its own reading of the clock, \<open>now_flush\<close>.
\<close>

definition soft_delete_todo ::
  "Todo list \<Rightarrow> uuid \<Rightarrow> uuid \<Rightarrow> datetime \<Rightarrow> datetime \<Rightarrow> exn + Todo list"
where
  "soft_delete_todo db tid uid now now_flush =
     (case get_todo db tid uid of
        Inl e \<Rightarrow> Inl e
      | Inr todo \<Rightarrow>
          Inr (map (\<lambda>r. if todo_id r = todo_id todo
                         then r\<lparr>deleted_at := Some now, updated_at := now_flush\<rparr> else r) db))"

text \<open>
  \<open>list_todos\<close>. \<open>today\<close> is the day number of \<^verbatim>\<open>date.today()\<close>; \<^verbatim>\<open>time.min\<close> and
  \<^verbatim>\<open>time.max\<close> are the first and the last microsecond of that day. \<open>sort_by\<close> ranges
  over the three names the endpoint admits. \<^verbatim>\<open>ORDER BY\<close> is a stable sort on the key of
  the column, reversed for \<^verbatim>\<open>desc\<close>; the priority column holds the enum's string, so it
  sorts as \<^verbatim>\<open>high < low < medium\<close>, and a missing due date sorts after every date, as the
  database orders \<^verbatim>\<open>NULL\<close>. \<^verbatim>\<open>OFFSET\<close> and \<^verbatim>\<open>LIMIT\<close> reach the database as 64-bit
  integers: it refuses a negative one, and a value above \<open>int64_max\<close> cannot be sent.
\<close>

record TodoResponse =
  r_id :: uuid
  r_user_id :: uuid
  r_title :: string
  r_description :: "string option"
  r_status :: TodoStatus
  r_priority :: Priority
  r_due_date :: "datetime option"
  r_tags :: "string list"
  r_created_at :: datetime
  r_updated_at :: datetime

definition model_validate :: "Todo \<Rightarrow> TodoResponse" where
  "model_validate t =
     \<lparr>r_id = todo_id t, r_user_id = user_id t, r_title = title t,
      r_description = description t, r_status = status t, r_priority = priority t,
      r_due_date = due_date t, r_tags = tags t, r_created_at = created_at t,
      r_updated_at = updated_at t\<rparr>"

record PaginatedData =
  items :: "TodoResponse list"
  page :: int
  per_page :: int
  total :: int
  total_pages :: int

datatype sort_field = by_created_at | by_due_date | by_priority

fun priority_rank :: "Priority \<Rightarrow> int" where
  "priority_rank HIGH = 0"
| "priority_rank LOW = 1"
| "priority_rank MEDIUM = 2"

fun sort_column :: "sort_field \<Rightarrow> Todo \<Rightarrow> int \<times> int" where
  "sort_column by_created_at t = (0, created_at t)"
| "sort_column by_due_date t = (case due_date t of None \<Rightarrow> (1, 0) | Some d \<Rightarrow> (0, d))"
| "sort_column by_priority t = (0, priority_rank (priority t))"

definition int64_max :: int where
  "int64_max = 9223372036854775807"

definition day_us :: int where
  "day_us = 86400000000"

definition due_filter :: "string option \<Rightarrow> int \<Rightarrow> Todo \<Rightarrow> bool" where
  "due_filter due today t =
     (let today_start = today * day_us; today_end = today * day_us + day_us - 1
      in if due = Some ''today''
         then (case due_date t of None \<Rightarrow> False | Some d \<Rightarrow> today_start \<le> d \<and> d \<le> today_end)
         else if due = Some ''upcoming''
         then (case due_date t of None \<Rightarrow> False | Some d \<Rightarrow> today_end < d)
         else True)"

text \<open>The query after the filters, before sorting and paging.\<close>

definition base_query ::
  "Todo list \<Rightarrow> uuid \<Rightarrow> TodoStatus option \<Rightarrow> Priority option \<Rightarrow> string option \<Rightarrow> int \<Rightarrow>
   Todo list"
where
  "base_query db uid st pr due today =
     (let q0 = filter (\<lambda>t. user_id t = uid \<and> deleted_at t = None) db;
          q1 = (case st of None \<Rightarrow> q0 | Some s \<Rightarrow> filter (\<lambda>t. status t = s) q0);
          q2 = (case pr of None \<Rightarrow> q1 | Some p \<Rightarrow> filter (\<lambda>t. priority t = p) q1)
      in filter (due_filter due today) q2)"

definition list_todos ::
  "Todo list \<Rightarrow> uuid \<Rightarrow> int \<Rightarrow> int \<Rightarrow> TodoStatus option \<Rightarrow> Priority option \<Rightarrow> string option \<Rightarrow>
   sort_field \<Rightarrow> string \<Rightarrow> int \<Rightarrow> exn + PaginatedData"
where
  "list_todos db uid pg per st pr due sort_by sort_order today =
     (let base = base_query db uid st pr due today;
          tot = int (length base);
          ordered = (if sort_order = ''desc''
                     then rev (sort_key (sort_column sort_by) base)
                     else sort_key (sort_column sort_by) base);
          offset = (pg - 1) * per
      in if offset < 0 \<or> per < 0 \<or> offset > int64_max \<or> per > int64_max
         then Inl DBAPIError
         else
           let todos = take (nat per) (drop (nat offset) ordered)
           in if tot > 0 \<and> per = 0 then Inl ZeroDivisionError
              else Inr \<lparr>items = map model_validate todos, page = pg, per_page = per,
                        total = tot,
                        total_pages = (if tot > 0 then (tot + per - 1) div per else 0)\<rparr>)"

text \<open>
  The rows a listing counts, in the words of the specification: the rows of the owner
  that are not deleted and pass each filter that is given.
\<close>

definition matches ::
  "uuid \<Rightarrow> TodoStatus option \<Rightarrow> Priority option \<Rightarrow> string option \<Rightarrow> int \<Rightarrow> Todo \<Rightarrow> bool"
where
  "matches uid st pr due today t \<longleftrightarrow>
     user_id t = uid \<and> deleted_at t = None
     \<and> (case st of None \<Rightarrow> True | Some s \<Rightarrow> status t = s)
     \<and> (case pr of None \<Rightarrow> True | Some p \<Rightarrow> priority t = p)
     \<and> due_filter due today t"

text \<open>
  One successful write of the service takes the table from \<open>db\<close> to \<open>db'\<close>. The histories of
  the table are the chains of such writes.
\<close>

inductive write_step :: "Todo list \<Rightarrow> Todo list \<Rightarrow> bool" where
  created: "create_todo db new_id now_created now_updated uid data = Inr (db', t) \<Longrightarrow>
            write_step db db'"
| updated: "update_todo db tid uid upd now = Inr (db', t) \<Longrightarrow> write_step db db'"
| deleted: "soft_delete_todo db tid uid now now_flush = Inr db' \<Longrightarrow> write_step db db'"

text \<open>The owner of a row never changes: no write assigns \<open>user_id\<close> of an existing row.\<close>

definition owned_by :: "Todo list \<Rightarrow> uuid \<Rightarrow> uuid \<Rightarrow> bool" where
  "owned_by db k u \<longleftrightarrow> k \<in> todo_id ` set db \<and> (\<forall>r \<in> set db. todo_id r = k \<longrightarrow> user_id r = u)"

text \<open>A soft-deleted row: every row with the key \<open>k\<close> carries the delete timestamp \<open>d\<close>.\<close>

definition deleted_since :: "Todo list \<Rightarrow> uuid \<Rightarrow> datetime \<Rightarrow> bool" where
  "deleted_since db k d \<longleftrightarrow>
     k \<in> todo_id ` set db \<and> (\<forall>r \<in> set db. todo_id r = k \<longrightarrow> deleted_at r = Some d)"

text \<open>The rows used as concrete instances below.\<close>

definition ex_create :: TodoCreate where
  "ex_create = \<lparr>c_title = ''Buy milk'', c_description = None, c_status = PENDING,
                 c_priority = MEDIUM, c_due_date = None\<rparr>"

definition ex_todo :: Todo where
  "ex_todo = \<lparr>todo_id = 1, user_id = 7, title = ''Buy milk'', description = None,
               status = PENDING, priority = MEDIUM, due_date = None,
               tags = [''shopping'', ''milk''], created_at = 10, updated_at = 11,
               deleted_at = None\<rparr>"

definition upd_none :: TodoUpdate where
  "upd_none = \<lparr>u_title = None, u_description = None, u_status = None, u_priority = None,
                u_due_date = None\<rparr>"

text \<open>The bounds of the data model on one row: the title and the derived tag list.\<close>

definition todo_inv :: "Todo \<Rightarrow> bool" where
  "todo_inv t \<longleftrightarrow> 1 \<le> length (title t) \<and> length (title t) \<le> 255 \<and> length (tags t) \<le> 5"

definition upd_title :: TodoUpdate where
  "upd_title = \<lparr>u_title = Some (Some ''Call doctor''), u_description = None, u_status = None,
                 u_priority = None, u_due_date = None\<rparr>"

definition ex_todo' :: Todo where
  "ex_todo' = \<lparr>todo_id = 1, user_id = 7, title = ''Call doctor'', description = None,
                status = PENDING, priority = MEDIUM, due_date = None,
                tags = [''health'', ''call'', ''doctor''], created_at = 10, updated_at = 20,
                deleted_at = None\<rparr>"


section \<open>Tokens\<close>

text \<open>
  \<^verbatim>\<open>security/jwt.py\<close>, over a model of the two library types it uses.

  \<^verbatim>\<open>str(uuid)\<close> is the 32 lower-case hexadecimal digits of the 128-bit value, with hyphens
  after the digits 8, 12, 16 and 20. \<^verbatim>\<open>UUID(s)\<close> drops the hyphens of \<open>s\<close> and reads 32
  hexadecimal digits; it raises \<^verbatim>\<open>ValueError\<close> (here \<open>None\<close>) otherwise. Python also
  accepts a few more spellings (braces, a \<^verbatim>\<open>urn:uuid:\<close> prefix); they are rejected
  here, and no token issued by this module carries one.
\<close>

definition hex_char :: "nat \<Rightarrow> char" where
  "hex_char d = (if d < 10 then char_of (48 + d) else char_of (87 + d))"

fun hex_digits :: "nat \<Rightarrow> nat \<Rightarrow> string" where
  "hex_digits 0 n = []"
| "hex_digits (Suc k) n = hex_digits k (n div 16) @ [hex_char (n mod 16)]"

definition hex_val :: "char \<Rightarrow> nat option" where
  "hex_val c =
     (let n = (of_char c :: nat)
      in if 48 \<le> n \<and> n \<le> 57 then Some (n - 48)
         else if 97 \<le> n \<and> n \<le> 102 then Some (n - 87)
         else if 65 \<le> n \<and> n \<le> 70 then Some (n - 55)
         else None)"

fun parse_hex :: "string \<Rightarrow> nat \<Rightarrow> nat option" where
  "parse_hex [] acc = Some acc"
| "parse_hex (c # cs) acc =
     (case hex_val c of None \<Rightarrow> None | Some d \<Rightarrow> parse_hex cs (16 * acc + d))"

definition str_uuid :: "uuid \<Rightarrow> string" where
  "str_uuid u =
     (let h = hex_digits 32 (unat u)
      in take 8 h @ ''-'' @ take 4 (drop 8 h) @ ''-'' @ take 4 (drop 12 h) @ ''-''
         @ take 4 (drop 16 h) @ ''-'' @ drop 20 h)"

definition UUID :: "string \<Rightarrow> uuid option" where
  "UUID s =
     (let hex = filter (\<lambda>c. c \<noteq> CHR ''-'') s
      in if length hex \<noteq> 32 then None
         else (case parse_hex hex 0 of None \<Rightarrow> None | Some n \<Rightarrow> Some (of_nat n)))"

text \<open>
  The claim set of a token. \<^verbatim>\<open>jwt.encode\<close> stores \<^verbatim>\<open>exp\<close> and \<^verbatim>\<open>iat\<close> as whole seconds
  (\<open>timegm\<close>).

  A token string is either a signed token, which records the algorithm, the key it was
  signed with and its claims, or a string that is no signed token, which records the
  message of the exception that decoding it raises. A signature verifies exactly under
  the key that made it. \<open>jwt_decode\<close> is \<^verbatim>\<open>jose.jwt.decode\<close> with its default options:
  the algorithm must be one of those allowed, the signature must verify, and \<^verbatim>\<open>exp\<close>,
  when present, must not lie before the clock's second; the \<open>Inl\<close> is the message of the
  \<^verbatim>\<open>JWTError\<close>.
\<close>

record Claims =
  claim_sub :: "string option"
  claim_type :: "string option"
  claim_jti :: "string option"
  claim_exp :: "int option"
  claim_iat :: "int option"

datatype token = Signed string string Claims | Unsigned string

definition timegm :: "datetime \<Rightarrow> int" where
  "timegm t = t div 1000000"

definition jwt_encode :: "Claims \<Rightarrow> string \<Rightarrow> string \<Rightarrow> token" where
  "jwt_encode payload key algorithm = Signed algorithm key payload"

fun jwt_decode :: "token \<Rightarrow> string \<Rightarrow> string list \<Rightarrow> datetime \<Rightarrow> string + Claims" where
  "jwt_decode (Unsigned msg) key algorithms now = Inl msg"
| "jwt_decode (Signed alg k payload) key algorithms now =
     (if alg \<notin> set algorithms then Inl ''The specified alg value is not allowed''
      else if k \<noteq> key then Inl ''Signature verification failed.''
      else (case claim_exp payload of
              None \<Rightarrow> Inr payload
            | Some e \<Rightarrow> if e < timegm now then Inl ''Signature has expired.''
                        else Inr payload))"

text \<open>\<^verbatim>\<open>config.py\<close>: the settings the token functions read.\<close>

record Settings =
  jwt_secret_key :: string
  jwt_algorithm :: string
  access_token_expire_minutes :: int
  refresh_token_expire_days :: int

definition default_settings :: Settings where
  "default_settings =
     \<lparr>jwt_secret_key = ''your-256-bit-secret-key-here-minimum-32-chars'',
      jwt_algorithm = ''HS256'', access_token_expire_minutes = 15,
      refresh_token_expire_days = 7\<rparr>"

text \<open>
  \<open>create_access_token\<close> and \<open>create_refresh_token\<close>: \<open>now_exp\<close> and \<open>now_iat\<close> are the two
  readings of the clock, \<open>jti\<close> is the value of \<^verbatim>\<open>uuid4()\<close>.
\<close>

definition create_access_token :: "Settings \<Rightarrow> uuid \<Rightarrow> datetime \<Rightarrow> datetime \<Rightarrow> token" where
  "create_access_token settings uid now_exp now_iat =
     (let expire = now_exp + access_token_expire_minutes settings * 60000000;
          payload = \<lparr>claim_sub = Some (str_uuid uid), claim_type = Some ''access'',
                     claim_jti = None, claim_exp = Some (timegm expire),
                     claim_iat = Some (timegm now_iat)\<rparr>
      in jwt_encode payload (jwt_secret_key settings) (jwt_algorithm settings))"

definition create_refresh_token ::
  "Settings \<Rightarrow> uuid \<Rightarrow> datetime \<Rightarrow> uuid \<Rightarrow> datetime \<Rightarrow> token"
where
  "create_refresh_token settings uid now_exp jti now_iat =
     (let expire = now_exp + refresh_token_expire_days settings * 86400000000;
          payload = \<lparr>claim_sub = Some (str_uuid uid), claim_type = Some ''refresh'',
                     claim_jti = Some (str_uuid jti), claim_exp = Some (timegm expire),
                     claim_iat = Some (timegm now_iat)\<rparr>
      in jwt_encode payload (jwt_secret_key settings) (jwt_algorithm settings))"

definition verify_token :: "Settings \<Rightarrow> token \<Rightarrow> string \<Rightarrow> datetime \<Rightarrow> exn + Claims" where
  "verify_token settings tok token_type now =
     (case jwt_decode tok (jwt_secret_key settings) [jwt_algorithm settings] now of
        Inl e \<Rightarrow> Inl (TokenError (''Invalid token: '' @ e))
      | Inr payload \<Rightarrow>
          if claim_type payload \<noteq> Some token_type
          then Inl (TokenError (''Invalid token type. Expected '' @ token_type))
          else if (case claim_sub payload of None \<Rightarrow> True | Some s \<Rightarrow> s = [])
          then Inl (TokenError ''Token missing subject claim'')
          else Inr payload)"

definition get_user_id_from_token ::
  "Settings \<Rightarrow> token \<Rightarrow> string \<Rightarrow> datetime \<Rightarrow> exn + uuid"
where
  "get_user_id_from_token settings tok token_type now =
     (case verify_token settings tok token_type now of
        Inl e \<Rightarrow> Inl e
      | Inr payload \<Rightarrow>
          (case claim_sub payload of
             None \<Rightarrow> Inl (TokenError ''Invalid user ID in token'')
           | Some s \<Rightarrow>
               (case UUID s of
                  None \<Rightarrow> Inl (TokenError ''Invalid user ID in token'')
                | Some u \<Rightarrow> Inr u)))"

section \<open>Users and authentication\<close>

text \<open>\<^verbatim>\<open>models/user.py\<close>: a row of the table \<^verbatim>\<open>users\<close>. The column \<^verbatim>\<open>id\<close> is \<open>usr_id\<close>.\<close>

record User =
  usr_id :: uuid
  email :: string
  username :: string
  password_hash :: string
  usr_created_at :: datetime
  usr_updated_at :: datetime
  usr_deleted_at :: "datetime option"

text \<open>
  \<^verbatim>\<open>services/user_service.py\<close>. The flush of \<open>create\<close> and of \<open>update_username\<close> raises
  when the row breaks the primary key or one of the two unique indexes. The length
  limits of the columns are not modelled; the request schemas keep within them.
\<close>

definition get_by_id :: "User list \<Rightarrow> uuid \<Rightarrow> exn + User option" where
  "get_by_id tbl i =
     scalar_one_or_none (filter (\<lambda>u. usr_id u = i \<and> usr_deleted_at u = None) tbl)"

definition get_by_email :: "User list \<Rightarrow> string \<Rightarrow> exn + User option" where
  "get_by_email tbl em =
     scalar_one_or_none (filter (\<lambda>u. email u = lower em \<and> usr_deleted_at u = None) tbl)"

definition get_by_username :: "User list \<Rightarrow> string \<Rightarrow> exn + User option" where
  "get_by_username tbl un =
     scalar_one_or_none (filter (\<lambda>u. username u = un \<and> usr_deleted_at u = None) tbl)"

definition create ::
  "User list \<Rightarrow> uuid \<Rightarrow> datetime \<Rightarrow> datetime \<Rightarrow> string \<Rightarrow> string \<Rightarrow> string \<Rightarrow>
   exn + (User list \<times> User)"
where
  "create tbl new_id now_created now_updated em un pw_hash =
     (case get_by_email tbl em of
        Inl e \<Rightarrow> Inl e
      | Inr (Some existing_email) \<Rightarrow> Inl (ConflictError ''Email already registered'')
      | Inr None \<Rightarrow>
          (case get_by_username tbl un of
             Inl e \<Rightarrow> Inl e
           | Inr (Some existing_username) \<Rightarrow> Inl (ConflictError ''Username already taken'')
           | Inr None \<Rightarrow>
               let user = \<lparr>usr_id = new_id, email = lower em, username = un,
                           password_hash = pw_hash, usr_created_at = now_created,
                           usr_updated_at = now_updated, usr_deleted_at = None\<rparr>
               in if new_id \<in> usr_id ` set tbl \<or> lower em \<in> email ` set tbl
                     \<or> un \<in> username ` set tbl
                  then Inl IntegrityError
                  else Inr (tbl @ [user], user)))"

definition update_username ::
  "User list \<Rightarrow> uuid \<Rightarrow> string \<Rightarrow> datetime \<Rightarrow> exn + (User list \<times> User)"
where
  "update_username tbl i new_username now_flush =
     (case get_by_id tbl i of
        Inl e \<Rightarrow> Inl e
      | Inr None \<Rightarrow> Inl (NotFoundError ''User not found'')
      | Inr (Some user) \<Rightarrow>
          (case get_by_username tbl new_username of
             Inl e \<Rightarrow> Inl e
           | Inr existing \<Rightarrow>
               if (case existing of None \<Rightarrow> False | Some x \<Rightarrow> usr_id x \<noteq> i)
               then Inl (ConflictError ''Username already taken'')
               else if username user = new_username then Inr (tbl, user)
               else if new_username \<in> username ` set tbl then Inl IntegrityError
               else
                 let user' = user\<lparr>username := new_username, usr_updated_at := now_flush\<rparr>
                 in Inr (map (\<lambda>r. if usr_id r = usr_id user then user' else r) tbl, user')))"

text \<open>
  \<^verbatim>\<open>services/auth_service.py\<close>. The module \<^verbatim>\<open>security/password.py\<close> is not among the
  sources: its two functions \<^verbatim>\<open>hash_password\<close> and \<^verbatim>\<open>verify_password\<close> are parameters.
  \<open>TokenReads\<close> holds what issuing one pair of tokens reads from the clock and from
  \<^verbatim>\<open>uuid4\<close>.
\<close>

record TokenData =
  access_token :: token
  token_type :: string

record TokenReads =
  rd_access_exp :: datetime
  rd_access_iat :: datetime
  rd_refresh_exp :: datetime
  rd_refresh_jti :: uuid
  rd_refresh_iat :: datetime

definition create_tokens :: "Settings \<Rightarrow> TokenReads \<Rightarrow> uuid \<Rightarrow> TokenData \<times> token" where
  "create_tokens cfg rd i =
     (\<lparr>access_token = create_access_token cfg i (rd_access_exp rd) (rd_access_iat rd),
       token_type = ''bearer''\<rparr>,
      create_refresh_token cfg i (rd_refresh_exp rd) (rd_refresh_jti rd) (rd_refresh_iat rd))"

definition register_user ::
  "User list \<Rightarrow> (string \<Rightarrow> string) \<Rightarrow> Settings \<Rightarrow> TokenReads \<Rightarrow> uuid \<Rightarrow> datetime \<Rightarrow> datetime \<Rightarrow>
   string \<Rightarrow> string \<Rightarrow> string \<Rightarrow> exn + (User list \<times> User \<times> TokenData \<times> token)"
where
  "register_user tbl hash_password cfg rd new_id now_created now_updated em un pw =
     (case create tbl new_id now_created now_updated em un (hash_password pw) of
        Inl e \<Rightarrow> Inl e
      | Inr (tbl', user) \<Rightarrow> Inr (tbl', user, create_tokens cfg rd (usr_id user)))"

definition authenticate_user ::
  "User list \<Rightarrow> (string \<Rightarrow> string \<Rightarrow> bool) \<Rightarrow> Settings \<Rightarrow> TokenReads \<Rightarrow> string \<Rightarrow> string \<Rightarrow>
   exn + (User \<times> TokenData \<times> token)"
where
  "authenticate_user tbl verify_password cfg rd em pw =
     (case get_by_email tbl em of
        Inl e \<Rightarrow> Inl e
      | Inr None \<Rightarrow> Inl (AuthenticationError ''Invalid credentials'')
      | Inr (Some user) \<Rightarrow>
          if \<not> verify_password pw (password_hash user)
          then Inl (AuthenticationError ''Invalid credentials'')
          else Inr (user, create_tokens cfg rd (usr_id user)))"

definition refresh_tokens ::
  "User list \<Rightarrow> Settings \<Rightarrow> TokenReads \<Rightarrow> uuid \<Rightarrow> exn + (TokenData \<times> token)"
where
  "refresh_tokens tbl cfg rd i =
     (case get_by_id tbl i of
        Inl e \<Rightarrow> Inl e
      | Inr None \<Rightarrow> Inl (AuthenticationError ''User not found'')
      | Inr (Some user) \<Rightarrow>
          if usr_deleted_at user \<noteq> None then Inl (AuthenticationError ''User not found'')
          else Inr (create_tokens cfg rd (usr_id user)))"

text \<open>
  \<^verbatim>\<open>dependencies.py\<close>. \<open>now_verify\<close> is the clock of the token library when it decodes.
  A \<^verbatim>\<open>TokenError\<close> becomes an \<^verbatim>\<open>AuthenticationError\<close> with the same message. The refresh
  cookie is \<open>None\<close> when it is missing or empty.
\<close>

definition get_current_user :: "User list \<Rightarrow> Settings \<Rightarrow> token \<Rightarrow> datetime \<Rightarrow> exn + User" where
  "get_current_user tbl cfg credentials now_verify =
     (case get_user_id_from_token cfg credentials ''access'' now_verify of
        Inl (TokenError msg) \<Rightarrow> Inl (AuthenticationError msg)
      | Inl e \<Rightarrow> Inl e
      | Inr i \<Rightarrow>
          (case get_by_id tbl i of
             Inl e \<Rightarrow> Inl e
           | Inr None \<Rightarrow> Inl (AuthenticationError ''User not found'')
           | Inr (Some user) \<Rightarrow>
               if usr_deleted_at user \<noteq> None then Inl (AuthenticationError ''User not found'')
               else Inr user))"

definition get_refresh_token_user_id ::
  "Settings \<Rightarrow> token option \<Rightarrow> datetime \<Rightarrow> exn + uuid"
where
  "get_refresh_token_user_id cfg refresh_cookie now_verify =
     (case refresh_cookie of
        None \<Rightarrow> Inl (AuthenticationError ''Refresh token required'')
      | Some tok \<Rightarrow>
          (case get_user_id_from_token cfg tok ''refresh'' now_verify of
             Inl (TokenError msg) \<Rightarrow> Inl (AuthenticationError msg)
           | Inl e \<Rightarrow> Inl e
           | Inr i \<Rightarrow> Inr i))"

section \<open>Responses and endpoints\<close>

text \<open>
  \<^verbatim>\<open>models/schemas.py\<close>: the response wrapper \<^verbatim>\<open>APIResponse\<close>, and the payloads the
  endpoints put in its \<^verbatim>\<open>data\<close>. A response is its status code, its body and what it
  does to the refresh cookie.
\<close>

record 'a APIResponse =
  success :: bool
  data :: "'a option"
  error :: "string option"
  timestamp :: datetime

record UserResponse =
  ur_id :: uuid
  ur_email :: string
  ur_username :: string
  ur_created_at :: datetime

definition user_model_validate :: "User \<Rightarrow> UserResponse" where
  "user_model_validate u =
     \<lparr>ur_id = usr_id u, ur_email = email u, ur_username = username u,
      ur_created_at = usr_created_at u\<rparr>"

datatype payload =
    TokenData_payload TokenData
  | TodoResponse_payload TodoResponse
  | PaginatedData_payload PaginatedData
  | UserResponse_payload UserResponse

datatype cookie = set_refresh_cookie token | clear_refresh_cookie

record Response =
  http_status :: int
  body :: "payload APIResponse"
  cookie_action :: "cookie option"

text \<open>
  \<^verbatim>\<open>middleware/error_handler.py\<close>: the handler for \<^verbatim>\<open>AppException\<close> and the handler for
  every other exception. \<open>now\<close> is the handler's reading of the clock.
\<close>

definition app_exception_handler :: "datetime \<Rightarrow> exn \<Rightarrow> Response" where
  "app_exception_handler now exc =
     \<lparr>http_status = status_code exc,
      body = \<lparr>success = False, data = None, error = Some (message exc), timestamp = now\<rparr>,
      cookie_action = None\<rparr>"

definition general_exception_handler :: "datetime \<Rightarrow> exn \<Rightarrow> Response" where
  "general_exception_handler now exc =
     \<lparr>http_status = 500,
      body = \<lparr>success = False, data = None, error = Some ''An unexpected error occurred'',
               timestamp = now\<rparr>,
      cookie_action = None\<rparr>"

definition handle_exception :: "datetime \<Rightarrow> exn \<Rightarrow> Response" where
  "handle_exception now exc =
     (if is_AppException exc then app_exception_handler now exc
      else general_exception_handler now exc)"

text \<open>A handler's return value: \<^verbatim>\<open>APIResponse(success=True, data=..., timestamp=...)\<close>.\<close>

definition api_response :: "int \<Rightarrow> payload option \<Rightarrow> datetime \<Rightarrow> cookie option \<Rightarrow> Response" where
  "api_response code d now ck =
     \<lparr>http_status = code,
      body = \<lparr>success = True, data = d, error = None, timestamp = now\<rparr>,
      cookie_action = ck\<rparr>"

text \<open>
  The application: its settings and the two password functions. The database: the two
  tables. \<open>Reads\<close>: everything one request reads from the clock and from \<^verbatim>\<open>uuid4\<close>, one
  field for each place that reads; \<open>rq_now_response\<close> is the reading that stamps the
  response, in the endpoint when it returns and in the exception handler when it raises.
  A request whose exception leaves the endpoint is rolled back: the database is as it
  was.
\<close>

record App =
  app_settings :: Settings
  app_hash_password :: "string \<Rightarrow> string"
  app_verify_password :: "string \<Rightarrow> string \<Rightarrow> bool"

record Database =
  users :: "User list"
  todos :: "Todo list"

record Reads =
  rq_now_verify :: datetime
  rq_new_id :: uuid
  rq_now_created :: datetime
  rq_now_updated :: datetime
  rq_now_service :: datetime
  rq_now_flush :: datetime
  rq_today :: int
  rq_tokens :: TokenReads
  rq_now_response :: datetime

text \<open>\<^verbatim>\<open>api/v1/auth.py\<close>.\<close>

definition signup :: "App \<Rightarrow> Database \<Rightarrow> Reads \<Rightarrow> string \<Rightarrow> string \<Rightarrow> string \<Rightarrow> Response \<times> Database" where
  "signup app dbs rd em un pw =
     (case register_user (users dbs) (app_hash_password app) (app_settings app) (rq_tokens rd)
             (rq_new_id rd) (rq_now_created rd) (rq_now_updated rd) em un pw of
        Inl e \<Rightarrow> (handle_exception (rq_now_response rd) e, dbs)
      | Inr (tbl', user, token_data, refresh) \<Rightarrow>
          (api_response 201 (Some (TokenData_payload token_data)) (rq_now_response rd)
             (Some (set_refresh_cookie refresh)),
           dbs\<lparr>users := tbl'\<rparr>))"

definition login :: "App \<Rightarrow> Database \<Rightarrow> Reads \<Rightarrow> string \<Rightarrow> string \<Rightarrow> Response \<times> Database" where
  "login app dbs rd em pw =
     (case authenticate_user (users dbs) (app_verify_password app) (app_settings app)
             (rq_tokens rd) em pw of
        Inl e \<Rightarrow> (handle_exception (rq_now_response rd) e, dbs)
      | Inr (user, token_data, refresh) \<Rightarrow>
          (api_response 200 (Some (TokenData_payload token_data)) (rq_now_response rd)
             (Some (set_refresh_cookie refresh)),
           dbs))"

definition refresh_token :: "App \<Rightarrow> Database \<Rightarrow> Reads \<Rightarrow> token option \<Rightarrow> Response \<times> Database" where
  "refresh_token app dbs rd refresh_cookie =
     (case get_refresh_token_user_id (app_settings app) refresh_cookie (rq_now_verify rd) of
        Inl e \<Rightarrow> (handle_exception (rq_now_response rd) e, dbs)
      | Inr i \<Rightarrow>
          (case refresh_tokens (users dbs) (app_settings app) (rq_tokens rd) i of
             Inl e \<Rightarrow> (handle_exception (rq_now_response rd) e, dbs)
           | Inr (token_data, new_refresh) \<Rightarrow>
               (api_response 200 (Some (TokenData_payload token_data)) (rq_now_response rd)
                  (Some (set_refresh_cookie new_refresh)),
                dbs)))"

definition logout :: "App \<Rightarrow> Database \<Rightarrow> Reads \<Rightarrow> token \<Rightarrow> Response \<times> Database" where
  "logout app dbs rd credentials =
     (case get_current_user (users dbs) (app_settings app) credentials (rq_now_verify rd) of
        Inl e \<Rightarrow> (handle_exception (rq_now_response rd) e, dbs)
      | Inr current_user \<Rightarrow>
          (api_response 200 None (rq_now_response rd) (Some clear_refresh_cookie), dbs))"

text \<open>\<^verbatim>\<open>api/v1/users.py\<close>.\<close>

definition get_current_user_profile ::
  "App \<Rightarrow> Database \<Rightarrow> Reads \<Rightarrow> token \<Rightarrow> Response \<times> Database"
where
  "get_current_user_profile app dbs rd credentials =
     (case get_current_user (users dbs) (app_settings app) credentials (rq_now_verify rd) of
        Inl e \<Rightarrow> (handle_exception (rq_now_response rd) e, dbs)
      | Inr current_user \<Rightarrow>
          (api_response 200 (Some (UserResponse_payload (user_model_validate current_user)))
             (rq_now_response rd) None,
           dbs))"

definition update_current_user_profile ::
  "App \<Rightarrow> Database \<Rightarrow> Reads \<Rightarrow> token \<Rightarrow> string option \<Rightarrow> Response \<times> Database"
where
  "update_current_user_profile app dbs rd credentials new_username =
     (case get_current_user (users dbs) (app_settings app) credentials (rq_now_verify rd) of
        Inl e \<Rightarrow> (handle_exception (rq_now_response rd) e, dbs)
      | Inr current_user \<Rightarrow>
          (case (case new_username of
                   None \<Rightarrow> Inr (users dbs, current_user)
                 | Some un \<Rightarrow>
                     if un = [] then Inr (users dbs, current_user)
                     else update_username (users dbs) (usr_id current_user) un
                            (rq_now_flush rd)) of
             Inl e \<Rightarrow> (handle_exception (rq_now_response rd) e, dbs)
           | Inr (tbl', updated_user) \<Rightarrow>
               (api_response 200 (Some (UserResponse_payload (user_model_validate updated_user)))
                  (rq_now_response rd) None,
                dbs\<lparr>users := tbl'\<rparr>)))"

text \<open>
  \<^verbatim>\<open>api/v1/todos.py\<close>. The endpoints carry the names of the service methods they call;
  here they have the suffix \<open>_endpoint\<close>, and \<open>delete_todo\<close> its own name.
\<close>

definition list_todos_endpoint ::
  "App \<Rightarrow> Database \<Rightarrow> Reads \<Rightarrow> token \<Rightarrow> int \<Rightarrow> int \<Rightarrow> TodoStatus option \<Rightarrow> Priority option \<Rightarrow>
   string option \<Rightarrow> sort_field \<Rightarrow> string \<Rightarrow> Response \<times> Database"
where
  "list_todos_endpoint app dbs rd credentials pg per st pr due sort_by sort_order =
     (case get_current_user (users dbs) (app_settings app) credentials (rq_now_verify rd) of
        Inl e \<Rightarrow> (handle_exception (rq_now_response rd) e, dbs)
      | Inr current_user \<Rightarrow>
          (case list_todos (todos dbs) (usr_id current_user) pg per st pr due sort_by sort_order
                  (rq_today rd) of
             Inl e \<Rightarrow> (handle_exception (rq_now_response rd) e, dbs)
           | Inr paginated_data \<Rightarrow>
               (api_response 200 (Some (PaginatedData_payload paginated_data))
                  (rq_now_response rd) None,
                dbs)))"

definition create_todo_endpoint ::
  "App \<Rightarrow> Database \<Rightarrow> Reads \<Rightarrow> token \<Rightarrow> TodoCreate \<Rightarrow> Response \<times> Database"
where
  "create_todo_endpoint app dbs rd credentials d =
     (case get_current_user (users dbs) (app_settings app) credentials (rq_now_verify rd) of
        Inl e \<Rightarrow> (handle_exception (rq_now_response rd) e, dbs)
      | Inr current_user \<Rightarrow>
          (case create_todo (todos dbs) (rq_new_id rd) (rq_now_created rd) (rq_now_updated rd)
                  (usr_id current_user) d of
             Inl e \<Rightarrow> (handle_exception (rq_now_response rd) e, dbs)
           | Inr (tbl', todo) \<Rightarrow>
               (api_response 201 (Some (TodoResponse_payload (model_validate todo)))
                  (rq_now_response rd) None,
                dbs\<lparr>todos := tbl'\<rparr>)))"

definition get_todo_endpoint ::
  "App \<Rightarrow> Database \<Rightarrow> Reads \<Rightarrow> token \<Rightarrow> uuid \<Rightarrow> Response \<times> Database"
where
  "get_todo_endpoint app dbs rd credentials tid =
     (case get_current_user (users dbs) (app_settings app) credentials (rq_now_verify rd) of
        Inl e \<Rightarrow> (handle_exception (rq_now_response rd) e, dbs)
      | Inr current_user \<Rightarrow>
          (case get_todo (todos dbs) tid (usr_id current_user) of
             Inl e \<Rightarrow> (handle_exception (rq_now_response rd) e, dbs)
           | Inr todo \<Rightarrow>
               (api_response 200 (Some (TodoResponse_payload (model_validate todo)))
                  (rq_now_response rd) None,
                dbs)))"

definition update_todo_endpoint ::
  "App \<Rightarrow> Database \<Rightarrow> Reads \<Rightarrow> token \<Rightarrow> uuid \<Rightarrow> TodoUpdate \<Rightarrow> Response \<times> Database"
where
  "update_todo_endpoint app dbs rd credentials tid d =
     (case get_current_user (users dbs) (app_settings app) credentials (rq_now_verify rd) of
        Inl e \<Rightarrow> (handle_exception (rq_now_response rd) e, dbs)
      | Inr current_user \<Rightarrow>
          (case update_todo (todos dbs) tid (usr_id current_user) d (rq_now_service rd) of
             Inl e \<Rightarrow> (handle_exception (rq_now_response rd) e, dbs)
           | Inr (tbl', todo) \<Rightarrow>
               (api_response 200 (Some (TodoResponse_payload (model_validate todo)))
                  (rq_now_response rd) None,
                dbs\<lparr>todos := tbl'\<rparr>)))"

definition delete_todo :: "App \<Rightarrow> Database \<Rightarrow> Reads \<Rightarrow> token \<Rightarrow> uuid \<Rightarrow> Response \<times> Database" where
  "delete_todo app dbs rd credentials tid =
     (case get_current_user (users dbs) (app_settings app) credentials (rq_now_verify rd) of
        Inl e \<Rightarrow> (handle_exception (rq_now_response rd) e, dbs)
      | Inr current_user \<Rightarrow>
          (case soft_delete_todo (todos dbs) tid (usr_id current_user) (rq_now_service rd)
                  (rq_now_flush rd) of
             Inl e \<Rightarrow> (handle_exception (rq_now_response rd) e, dbs)
           | Inr tbl' \<Rightarrow>
               (api_response 200 None (rq_now_response rd) None, dbs\<lparr>todos := tbl'\<rparr>)))"

text \<open>The requests of the three routers, and the endpoint each one reaches.\<close>

datatype request =
    Signup string string string
  | Login string string
  | Refresh "token option"
  | Logout token
  | GetMe token
  | UpdateMe token "string option"
  | ListTodos token int int "TodoStatus option" "Priority option" "string option" sort_field
      string
  | CreateTodo token TodoCreate
  | GetTodo token uuid
  | UpdateTodo token uuid TodoUpdate
  | DeleteTodo token uuid

fun serve :: "App \<Rightarrow> Database \<Rightarrow> Reads \<Rightarrow> request \<Rightarrow> Response \<times> Database" where
  "serve app dbs rd (Signup em un pw) = signup app dbs rd em un pw"
| "serve app dbs rd (Login em pw) = login app dbs rd em pw"
| "serve app dbs rd (Refresh ck) = refresh_token app dbs rd ck"
| "serve app dbs rd (Logout cr) = logout app dbs rd cr"
| "serve app dbs rd (GetMe cr) = get_current_user_profile app dbs rd cr"
| "serve app dbs rd (UpdateMe cr un) = update_current_user_profile app dbs rd cr un"
| "serve app dbs rd (ListTodos cr pg per st pr due sort_by sort_order) =
     list_todos_endpoint app dbs rd cr pg per st pr due sort_by sort_order"
| "serve app dbs rd (CreateTodo cr d) = create_todo_endpoint app dbs rd cr d"
| "serve app dbs rd (GetTodo cr tid) = get_todo_endpoint app dbs rd cr tid"
| "serve app dbs rd (UpdateTodo cr tid d) = update_todo_endpoint app dbs rd cr tid d"
| "serve app dbs rd (DeleteTodo cr tid) = delete_todo app dbs rd cr tid"

text \<open>The instances used below: one user, her access token, one request's readings.\<close>

definition ex_user :: User where
  "ex_user = \<lparr>usr_id = 7, email = ''alice@example.com'', username = ''alice'',
               password_hash = ''$2b$12$hash-of-pw12345678'', usr_created_at = 1,
               usr_updated_at = 1, usr_deleted_at = None\<rparr>"

definition ex_app :: App where
  "ex_app = \<lparr>app_settings = default_settings, app_hash_password = (\<lambda>pw. ''$2b$12$hash-of-'' @ pw),
              app_verify_password = (\<lambda>pw h. h = ''$2b$12$hash-of-'' @ pw)\<rparr>"

definition ex_db :: Database where
  "ex_db = \<lparr>users = [ex_user], todos = [ex_todo]\<rparr>"

definition ex_reads :: Reads where
  "ex_reads = \<lparr>rq_now_verify = 100000000, rq_new_id = 2, rq_now_created = 100000001,
                rq_now_updated = 100000002, rq_now_service = 100000003,
                rq_now_flush = 100000004, rq_today = 0,
                rq_tokens = \<lparr>rd_access_exp = 100000005, rd_access_iat = 100000006,
                             rd_refresh_exp = 100000007, rd_refresh_jti = 9,
                             rd_refresh_iat = 100000008\<rparr>,
                rq_now_response = 100000009\<rparr>"

definition ex_token :: token where
  "ex_token = create_access_token default_settings 7 0 0"

text \<open>
  The shape of a response body stamped at \<open>now\<close>: \<open>error\<close> is null exactly on success, and
  \<open>data\<close> and \<open>error\<close> are never both non-null.
\<close>

definition envelope_ok :: "datetime \<Rightarrow> Response \<Rightarrow> bool" where
  "envelope_ok now r \<longleftrightarrow>
     success (body r) = (error (body r) = None)
     \<and> (data (body r) = None \<or> error (body r) = None)
     \<and> timestamp (body r) = now"

section \<open>Properties of the todo service\<close>

subsection \<open>Reading one row\<close>

lemma extract_tags_buy_milk: "extract_tags ''Buy milk'' None = [''shopping'', ''milk'']"
  by code_simp

lemma create_ex_todo: "create_todo [] 1 10 11 7 ex_create = Inr ([ex_todo], ex_todo)"
  by (simp add: create_todo_def Let_def ex_create_def ex_todo_def extract_tags_buy_milk)

lemma get_todo_Inr:
  assumes "get_todo db tid uid = Inr t"
  shows "t \<in> set db \<and> todo_id t = tid \<and> user_id t = uid \<and> deleted_at t = None"
proof -
  let ?P = "\<lambda>t. todo_id t = tid \<and> user_id t = uid \<and> deleted_at t = None"
  from assms have "filter ?P db = [t]"
    by (cases "filter ?P db" rule: scalar_one_or_none.cases)
       (auto simp: get_todo_def)
  then have "t \<in> set (filter ?P db)" by simp
  then show ?thesis by simp
qed

lemma get_todo_absent:
  assumes "\<forall>t \<in> set db. \<not> (todo_id t = tid \<and> user_id t = uid \<and> deleted_at t = None)"
  shows "get_todo db tid uid = Inl (NotFoundError ''Todo not found'')"
proof -
  from assms
  have "filter (\<lambda>t. todo_id t = tid \<and> user_id t = uid \<and> deleted_at t = None) db = []"
    by (simp add: filter_empty_conv)
  then show ?thesis by (simp add: get_todo_def)
qed

lemma update_todo_absent:
  "get_todo db tid uid = Inl e \<Longrightarrow> update_todo db tid uid upd now = Inl e"
  by (simp add: update_todo_def)

lemma soft_delete_todo_absent:
  "get_todo db tid uid = Inl e \<Longrightarrow> soft_delete_todo db tid uid now now_flush = Inl e"
  by (simp add: soft_delete_todo_def)

subsection \<open>What a write does to the rows\<close>

lemma create_todo_Inr:
  assumes "create_todo db new_id nc nu uid req = Inr (db', t)"
  shows "db' = db @ [t] \<and> todo_id t = new_id \<and> user_id t = uid \<and> new_id \<notin> todo_id ` set db
         \<and> title t = c_title req \<and> description t = c_description req
         \<and> tags t = extract_tags (c_title req) (c_description req)
         \<and> deleted_at t = None"
  using assms by (auto simp: create_todo_def Let_def split: if_splits)

lemma update_todo_Inr:
  assumes "update_todo db tid uid upd now = Inr (db', t')"
  obtains t where "get_todo db tid uid = Inr t"
    and "db' = map (\<lambda>r. if todo_id r = tid then t' else r) db"
    and "u_title upd \<noteq> Some None"
    and "t' = (let t1 = set_fields t upd;
                   t2 = (if u_title upd \<noteq> None \<or> u_description upd \<noteq> None
                         then t1\<lparr>tags := extract_tags (title t1) (description t1)\<rparr> else t1)
               in t2\<lparr>updated_at := now\<rparr>)"
proof -
  from assms obtain t where g: "get_todo db tid uid = Inr t"
    by (cases "get_todo db tid uid") (auto simp: update_todo_def)
  then have tid: "todo_id t = tid" using get_todo_Inr by blast
  from assms g tid have
    "db' = map (\<lambda>r. if todo_id r = tid then t' else r) db"
    "u_title upd \<noteq> Some None"
    "t' = (let t1 = set_fields t upd;
               t2 = (if u_title upd \<noteq> None \<or> u_description upd \<noteq> None
                     then t1\<lparr>tags := extract_tags (title t1) (description t1)\<rparr> else t1)
           in t2\<lparr>updated_at := now\<rparr>)"
    by (auto simp: update_todo_def Let_def split: if_splits)
  with g that show thesis by blast
qed

lemma update_todo_frame:
  assumes "update_todo db tid uid upd now = Inr (db', t')" and "get_todo db tid uid = Inr t"
  shows "todo_id t' = todo_id t \<and> user_id t' = user_id t \<and> created_at t' = created_at t
         \<and> deleted_at t' = deleted_at t \<and> updated_at t' = now"
  using assms by (elim update_todo_Inr) (auto simp: Let_def set_fields_def)

lemma soft_delete_todo_Inr:
  assumes "soft_delete_todo db tid uid now nf = Inr db'"
  obtains t where "get_todo db tid uid = Inr t"
    and "db' = map (\<lambda>r. if todo_id r = tid
                         then r\<lparr>deleted_at := Some now, updated_at := nf\<rparr> else r) db"
proof -
  from assms obtain t where g: "get_todo db tid uid = Inr t"
    by (cases "get_todo db tid uid") (auto simp: soft_delete_todo_def)
  then have "todo_id t = tid" using get_todo_Inr by blast
  with assms g have
    "db' = map (\<lambda>r. if todo_id r = tid
                     then r\<lparr>deleted_at := Some now, updated_at := nf\<rparr> else r) db"
    by (auto simp: soft_delete_todo_def)
  with g that show thesis by blast
qed

lemma write_step_ids:
  assumes "write_step db db'"
  shows "todo_id ` set db \<subseteq> todo_id ` set db'"
  using assms
proof cases
  case (created new_id nc nu uid req t)
  then show ?thesis by (auto dest: create_todo_Inr)
next
  case (updated tid uid upd now t')
  from updated(1) show ?thesis
  proof (rule update_todo_Inr)
    fix t assume g: "get_todo db tid uid = Inr t"
      and d: "db' = map (\<lambda>r. if todo_id r = tid then t' else r) db"
    have "todo_id t' = tid" using update_todo_frame[OF updated(1) g] get_todo_Inr[OF g] by simp
    then have "map todo_id db' = map todo_id db" unfolding d by (induction db) auto
    then show ?thesis by (metis set_map subset_refl)
  qed
next
  case (deleted tid uid now nf)
  from deleted(1) show ?thesis
  proof (rule soft_delete_todo_Inr)
    fix t assume
      d: "db' = map (\<lambda>r. if todo_id r = tid
                           then r\<lparr>deleted_at := Some now, updated_at := nf\<rparr> else r) db"
    have "map todo_id db' = map todo_id db" unfolding d by (induction db) auto
    then show ?thesis by (metis set_map subset_refl)
  qed
qed

lemma write_step_distinct:
  assumes "write_step db db'" and "distinct (map todo_id db)"
  shows "distinct (map todo_id db')"
  using assms(1)
proof cases
  case (created new_id nc nu uid req t)
  with assms(2) show ?thesis by (auto dest!: create_todo_Inr)
next
  case (updated tid uid upd now t')
  from updated(1) show ?thesis
  proof (rule update_todo_Inr)
    fix t assume g: "get_todo db tid uid = Inr t"
      and d: "db' = map (\<lambda>r. if todo_id r = tid then t' else r) db"
    have "todo_id t' = tid" using update_todo_frame[OF updated(1) g] get_todo_Inr[OF g] by simp
    then have "map todo_id db' = map todo_id db" unfolding d by (induction db) auto
    with assms(2) show ?thesis by simp
  qed
next
  case (deleted tid uid now nf)
  from deleted(1) show ?thesis
  proof (rule soft_delete_todo_Inr)
    fix t assume
      d: "db' = map (\<lambda>r. if todo_id r = tid
                           then r\<lparr>deleted_at := Some now, updated_at := nf\<rparr> else r) db"
    have "map todo_id db' = map todo_id db" unfolding d by (induction db) auto
    with assms(2) show ?thesis by simp
  qed
qed

lemma write_step_owned_by:
  assumes "write_step db db'" and "owned_by db k u"
  shows "owned_by db' k u"
proof -
  have ids: "k \<in> todo_id ` set db'" using write_step_ids[OF assms(1)] assms(2)
    by (auto simp: owned_by_def)
  have "\<forall>r \<in> set db'. todo_id r = k \<longrightarrow> user_id r = u"
    using assms(1)
  proof cases
    case (created new_id nc nu uid req t)
    with assms(2) show ?thesis by (auto simp: owned_by_def dest!: create_todo_Inr)
  next
    case (updated tid uid upd now t')
    from updated(1) show ?thesis
    proof (rule update_todo_Inr)
      fix t assume g: "get_todo db tid uid = Inr t"
        and d: "db' = map (\<lambda>r. if todo_id r = tid then t' else r) db"
      have f: "todo_id t' = tid \<and> user_id t' = user_id t \<and> t \<in> set db \<and> todo_id t = tid"
        using update_todo_frame[OF updated(1) g] get_todo_Inr[OF g] by simp
      with assms(2) show ?thesis unfolding d by (auto simp: owned_by_def)
    qed
  next
    case (deleted tid uid now nf)
    from deleted(1) show ?thesis
    proof (rule soft_delete_todo_Inr)
      fix t assume
        d: "db' = map (\<lambda>r. if todo_id r = tid
                             then r\<lparr>deleted_at := Some now, updated_at := nf\<rparr> else r) db"
      with assms(2) show ?thesis by (auto simp: owned_by_def)
    qed
  qed
  with ids show ?thesis by (simp add: owned_by_def)
qed

lemma write_steps_owned_by:
  assumes "write_step\<^sup>*\<^sup>* db db'" and "owned_by db k u"
  shows "owned_by db' k u"
  using assms by (induction rule: rtranclp_induct) (auto intro: write_step_owned_by)

lemma write_step_deleted_since:
  assumes "write_step db db'" and "deleted_since db k d"
  shows "deleted_since db' k d"
proof -
  have ids: "k \<in> todo_id ` set db'" using write_step_ids[OF assms(1)] assms(2)
    by (auto simp: deleted_since_def)
  have "\<forall>r \<in> set db'. todo_id r = k \<longrightarrow> deleted_at r = Some d"
    using assms(1)
  proof cases
    case (created new_id nc nu uid req t)
    with assms(2) show ?thesis by (auto simp: deleted_since_def dest!: create_todo_Inr)
  next
    case (updated tid uid upd now t')
    from updated(1) show ?thesis
    proof (rule update_todo_Inr)
      fix t assume g: "get_todo db tid uid = Inr t"
        and d: "db' = map (\<lambda>r. if todo_id r = tid then t' else r) db"
      from get_todo_Inr[OF g] assms(2) have "tid \<noteq> k" by (auto simp: deleted_since_def)
      moreover have "todo_id t' = tid"
        using update_todo_frame[OF updated(1) g] get_todo_Inr[OF g] by simp
      ultimately show ?thesis using assms(2) unfolding d by (auto simp: deleted_since_def)
    qed
  next
    case (deleted tid uid now nf)
    from deleted(1) show ?thesis
    proof (rule soft_delete_todo_Inr)
      fix t assume g: "get_todo db tid uid = Inr t"
        and d: "db' = map (\<lambda>r. if todo_id r = tid
                             then r\<lparr>deleted_at := Some now, updated_at := nf\<rparr> else r) db"
      from get_todo_Inr[OF g] assms(2) have "tid \<noteq> k" by (auto simp: deleted_since_def)
      with assms(2) show ?thesis unfolding d by (auto simp: deleted_since_def)
    qed
  qed
  with ids show ?thesis by (simp add: deleted_since_def)
qed

lemma write_steps_deleted_since:
  assumes "write_step\<^sup>*\<^sup>* db db'" and "deleted_since db k d"
  shows "deleted_since db' k d"
  using assms by (induction rule: rtranclp_induct) (auto intro: write_step_deleted_since)

lemma base_query_matches:
  "base_query db uid st pr due today = filter (matches uid st pr due today) db"
  by (cases st; cases pr) (auto simp: base_query_def matches_def intro: filter_cong)

lemma list_todos_Inr:
  assumes "list_todos db uid pg per st pr due sb so today = Inr res"
  shows "items res = map model_validate
           (take (nat per) (drop (nat ((pg - 1) * per))
              (if so = ''desc'' then rev (sort_key (sort_column sb) (base_query db uid st pr due today))
               else sort_key (sort_column sb) (base_query db uid st pr due today))))"
    and "total res = int (length (base_query db uid st pr due today))"
    and "page res = pg" and "per_page res = per"
    and "total_pages res = (if total res > 0 then (total res + per - 1) div per else 0)"
  using assms by (auto simp: list_todos_def Let_def split: if_splits)

lemma list_todos_items:
  assumes "list_todos db uid pg per st pr due sb so today = Inr res"
  shows "\<forall>i \<in> set (items res).
           \<exists>t \<in> set db. i = model_validate t \<and> user_id t = uid \<and> deleted_at t = None"
proof
  fix i assume "i \<in> set (items res)"
  let ?b = "base_query db uid st pr due today"
  let ?o = "if so = ''desc'' then rev (sort_key (sort_column sb) ?b)
            else sort_key (sort_column sb) ?b"
  from \<open>i \<in> set (items res)\<close> list_todos_Inr(1)[OF assms]
  obtain t where t: "t \<in> set (take (nat per) (drop (nat ((pg - 1) * per)) ?o))"
    and i: "i = model_validate t" by auto
  from t have "t \<in> set ?o" by (blast dest: in_set_takeD in_set_dropD)
  then have "t \<in> set ?b" by (simp split: if_splits)
  then have "matches uid st pr due today t" by (simp add: base_query_matches)
  then have "user_id t = uid \<and> deleted_at t = None" by (simp add: matches_def)
  moreover from \<open>t \<in> set ?b\<close> have "t \<in> set db" by (simp add: base_query_matches)
  ultimately show "\<exists>t \<in> set db. i = model_validate t \<and> user_id t = uid \<and> deleted_at t = None"
    using i by blast
qed

lemma owned_by_created:
  assumes "create_todo db0 new_id nc nu u1 req = Inr (db1, t)"
  shows "owned_by db1 (todo_id t) u1"
proof -
  from create_todo_Inr[OF assms]
  have a: "db1 = db0 @ [t]" "user_id t = u1" "todo_id t \<notin> todo_id ` set db0" by simp_all
  have "todo_id t \<in> todo_id ` set db1" unfolding a(1) by simp
  moreover have "\<forall>r \<in> set db1. todo_id r = todo_id t \<longrightarrow> user_id r = u1"
  proof (intro ballI impI)
    fix r assume "r \<in> set db1" "todo_id r = todo_id t"
    with a(3) have "r = t" unfolding a(1) by (metis Un_iff empty_iff empty_set image_eqI set_ConsD set_append)
    with a(2) show "user_id r = u1" by simp
  qed
  ultimately show ?thesis by (simp add: owned_by_def)
qed

lemma deleted_since_map:
  assumes "t \<in> set db" and "todo_id t = tid"
  shows "deleted_since
           (map (\<lambda>r. if todo_id r = tid
                      then r\<lparr>deleted_at := Some now, updated_at := nf\<rparr> else r) db) tid now"
proof -
  let ?f = "\<lambda>r. if todo_id r = tid
                 then r\<lparr>deleted_at := Some now, updated_at := nf\<rparr> else r"
  have 1: "\<forall>r \<in> set (map ?f db). todo_id r = tid \<longrightarrow> deleted_at r = Some now"
    by (induction db) auto
  have 2: "map todo_id (map ?f db) = map todo_id db"
    by (induction db) auto
  from assms(1) have "todo_id t \<in> todo_id ` set db" by (rule imageI)
  then have "tid \<in> set (map todo_id db)" unfolding assms(2) by simp
  then have "tid \<in> set (map todo_id (map ?f db))" by (simp only: 2)
  then have "tid \<in> todo_id ` set (map ?f db)" by (simp only: set_map)
  with 1 show ?thesis unfolding deleted_since_def by (rule conjI[rotated]) 
qed

lemma soft_delete_todo_deleted_since:
  assumes "soft_delete_todo db tid uid now now_flush = Inr db1"
  shows "length db1 = length db \<and> deleted_since db1 tid now"
proof -
  from assms obtain t where g: "get_todo db tid uid = Inr t"
    and d: "db1 = map (\<lambda>r. if todo_id r = tid
                 then r\<lparr>deleted_at := Some now, updated_at := now_flush\<rparr> else r) db"
    by (rule soft_delete_todo_Inr)
  from get_todo_Inr[OF g] have t: "t \<in> set db" and k: "todo_id t = tid" by simp_all
  have "length db1 = length db" unfolding d by (rule length_map)
  moreover have "deleted_since db1 tid now" unfolding d using t k by (rule deleted_since_map)
  ultimately show ?thesis by (rule conjI)
qed

subsection \<open>Ownership isolation\<close>

text \<open>
  Claim C1. Let user \<open>u1\<close> create a task \<open>t\<close>, and let the table then go through any
  number of writes. For every other user \<open>u2\<close>, \<open>get_todo\<close>, \<open>update_todo\<close> and
  \<open>soft_delete_todo\<close> on the id of \<open>t\<close> all fail with \<open>NotFoundError\<close> (status 404), and
  each outcome is the outcome of the same call on an id that no row of the table has.
\<close>

theorem isolation_not_found:
  assumes "create_todo db0 new_id nc nu u1 req = Inr (db1, t)"
    and "write_step\<^sup>*\<^sup>* db1 db"
    and "u2 \<noteq> u1"
    and "missing \<notin> todo_id ` set db"
  shows "get_todo db (todo_id t) u2 = Inl (NotFoundError ''Todo not found'')
       \<and> update_todo db (todo_id t) u2 upd now = Inl (NotFoundError ''Todo not found'')
       \<and> soft_delete_todo db (todo_id t) u2 now now_flush = Inl (NotFoundError ''Todo not found'')
       \<and> status_code (NotFoundError ''Todo not found'') = 404
       \<and> get_todo db (todo_id t) u2 = get_todo db missing u2
       \<and> update_todo db (todo_id t) u2 upd now = update_todo db missing u2 upd now
       \<and> soft_delete_todo db (todo_id t) u2 now now_flush
           = soft_delete_todo db missing u2 now now_flush"
proof -
  from assms(1) have "owned_by db1 (todo_id t) u1" by (rule owned_by_created)
  with assms(2) have "owned_by db (todo_id t) u1" by (rule write_steps_owned_by)
  with assms(3) have
    "\<forall>r \<in> set db. \<not> (todo_id r = todo_id t \<and> user_id r = u2 \<and> deleted_at r = None)"
    by (auto simp: owned_by_def)
  then have own: "get_todo db (todo_id t) u2 = Inl (NotFoundError ''Todo not found'')"
    by (rule get_todo_absent)
  from assms(4) have
    "\<forall>r \<in> set db. \<not> (todo_id r = missing \<and> user_id r = u2 \<and> deleted_at r = None)"
    by auto
  then have mis: "get_todo db missing u2 = Inl (NotFoundError ''Todo not found'')"
    by (rule get_todo_absent)
  show ?thesis
    using own mis update_todo_absent[OF own] update_todo_absent[OF mis]
      soft_delete_todo_absent[OF own] soft_delete_todo_absent[OF mis]
    by simp
qed

theorem isolation_not_found_witness:
  "get_todo [ex_todo] 1 8 = Inl (NotFoundError ''Todo not found'')
   \<and> update_todo [ex_todo] 1 8 upd_none 20 = Inl (NotFoundError ''Todo not found'')
   \<and> soft_delete_todo [ex_todo] 1 8 20 21 = Inl (NotFoundError ''Todo not found'')
   \<and> status_code (NotFoundError ''Todo not found'') = 404
   \<and> get_todo [ex_todo] 1 8 = get_todo [ex_todo] 2 8
   \<and> update_todo [ex_todo] 1 8 upd_none 20 = update_todo [ex_todo] 2 8 upd_none 20
   \<and> soft_delete_todo [ex_todo] 1 8 20 21 = soft_delete_todo [ex_todo] 2 8 20 21"
proof -
  have s: "write_step\<^sup>*\<^sup>* [ex_todo] [ex_todo]" by simp
  have n: "(8 :: uuid) \<noteq> 7" by simp
  have m: "(2 :: uuid) \<notin> todo_id ` set [ex_todo]" by (simp add: ex_todo_def)
  have i: "todo_id ex_todo = 1" by (simp add: ex_todo_def)
  from isolation_not_found[OF create_ex_todo s n m, of upd_none 20 21] show ?thesis
    unfolding i .
qed

subsection \<open>Soft deletion\<close>

text \<open>
  Claim C4. After a successful \<open>soft_delete_todo\<close> at time \<open>now\<close> the table has as many rows
  as before and a row with that id whose \<open>deleted_at\<close> is \<open>now\<close>; and after any number
  of further writes the row is still there with that timestamp, \<open>get_todo\<close>,
  \<open>update_todo\<close> and a second \<open>soft_delete_todo\<close> on the id fail with the same
  \<open>NotFoundError\<close> (for every user), and no listing returns the id.
\<close>

theorem soft_delete_hides_row:
  assumes "soft_delete_todo db tid uid now now_flush = Inr db1"
    and "write_step\<^sup>*\<^sup>* db1 db2"
  shows "length db1 = length db
       \<and> (\<exists>r \<in> set db2. todo_id r = tid \<and> deleted_at r = Some now)
       \<and> get_todo db2 tid u = Inl (NotFoundError ''Todo not found'')
       \<and> update_todo db2 tid u upd n = Inl (NotFoundError ''Todo not found'')
       \<and> soft_delete_todo db2 tid u n nf = Inl (NotFoundError ''Todo not found'')
       \<and> (list_todos db2 u pg per st pr due sb so today = Inr res
            \<longrightarrow> tid \<notin> r_id ` set (items res))"
proof -
  have len: "length db1 = length db" and del1: "deleted_since db1 tid now"
    using soft_delete_todo_deleted_since[OF assms(1)] by blast+
  from assms(2) del1 have del2: "deleted_since db2 tid now"
    by (rule write_steps_deleted_since)
  then have ex: "\<exists>r \<in> set db2. todo_id r = tid \<and> deleted_at r = Some now"
    unfolding deleted_since_def by blast
  from del2 have
    "\<forall>r \<in> set db2. \<not> (todo_id r = tid \<and> user_id r = u \<and> deleted_at r = None)"
    unfolding deleted_since_def by auto
  then have g: "get_todo db2 tid u = Inl (NotFoundError ''Todo not found'')"
    by (rule get_todo_absent)
  have l: "list_todos db2 u pg per st pr due sb so today = Inr res
            \<longrightarrow> tid \<notin> r_id ` set (items res)"
  proof (intro impI notI)
    assume lt: "list_todos db2 u pg per st pr due sb so today = Inr res"
      and "tid \<in> r_id ` set (items res)"
    then obtain i where i: "i \<in> set (items res)" "r_id i = tid" by blast
    with list_todos_items[OF lt] obtain t where
      t: "t \<in> set db2" "i = model_validate t" "deleted_at t = None" by blast
    from t(2) i(2) have "todo_id t = tid" by (simp add: model_validate_def)
    with del2 t(1) t(3) show False unfolding deleted_since_def by auto
  qed
  from len ex g update_todo_absent[OF g] soft_delete_todo_absent[OF g] l
  show ?thesis by (intro conjI)
qed

theorem soft_delete_hides_row_witness:
  "length [ex_todo\<lparr>deleted_at := Some 20, updated_at := 21\<rparr>] = length [ex_todo]
   \<and> (\<exists>r \<in> set [ex_todo\<lparr>deleted_at := Some 20, updated_at := 21\<rparr>].
       todo_id r = 1 \<and> deleted_at r = Some 20)
   \<and> get_todo [ex_todo\<lparr>deleted_at := Some 20, updated_at := 21\<rparr>] 1 7
       = Inl (NotFoundError ''Todo not found'')
   \<and> update_todo [ex_todo\<lparr>deleted_at := Some 20, updated_at := 21\<rparr>] 1 7 upd_none 30
       = Inl (NotFoundError ''Todo not found'')
   \<and> soft_delete_todo [ex_todo\<lparr>deleted_at := Some 20, updated_at := 21\<rparr>] 1 7 30 31
       = Inl (NotFoundError ''Todo not found'')"
proof -
  have d: "soft_delete_todo [ex_todo] 1 7 20 21
             = Inr [ex_todo\<lparr>deleted_at := Some 20, updated_at := 21\<rparr>]"
    by (simp add: soft_delete_todo_def get_todo_def ex_todo_def)
  have s: "write_step\<^sup>*\<^sup>* [ex_todo\<lparr>deleted_at := Some 20, updated_at := 21\<rparr>]
             [ex_todo\<lparr>deleted_at := Some 20, updated_at := 21\<rparr>]" by (rule rtranclp.rtrancl_refl)
  from soft_delete_hides_row[OF d s, of 7 upd_none 30 31] show ?thesis by blast
qed

subsection \<open>Listing\<close>






subsection \<open>Updating\<close>

lemma length_extract_tags: "length (extract_tags ttl desc) \<le> 5"
  unfolding extract_tags_def Let_def by simp

lemma set_fields_frame:
  "todo_id (set_fields t upd) = todo_id t"
  "user_id (set_fields t upd) = user_id t"
  "tags (set_fields t upd) = tags t"
  "created_at (set_fields t upd) = created_at t"
  "updated_at (set_fields t upd) = updated_at t"
  "deleted_at (set_fields t upd) = deleted_at t"
  by (simp_all add: set_fields_def)

lemma set_fields_unset:
  "u_title upd = None \<Longrightarrow> title (set_fields t upd) = title t"
  "u_description upd = None \<Longrightarrow> description (set_fields t upd) = description t"
  "u_status upd = None \<Longrightarrow> status (set_fields t upd) = status t"
  "u_priority upd = None \<Longrightarrow> priority (set_fields t upd) = priority t"
  "u_due_date upd = None \<Longrightarrow> due_date (set_fields t upd) = due_date t"
  by (simp_all add: set_fields_def)

lemma set_fields_set:
  "u_title upd = Some (Some a) \<Longrightarrow> title (set_fields t upd) = a"
  "u_description upd = Some b \<Longrightarrow> description (set_fields t upd) = b"
  "u_status upd = Some (Some c) \<Longrightarrow> status (set_fields t upd) = c"
  "u_priority upd = Some (Some d) \<Longrightarrow> priority (set_fields t upd) = d"
  "u_due_date upd = Some e \<Longrightarrow> due_date (set_fields t upd) = e"
  by (simp_all add: set_fields_def)

text \<open>The row an update returns, field by field.\<close>

lemma update_todo_result:
  assumes "update_todo db tid uid upd now = Inr (db', t')" and "get_todo db tid uid = Inr t"
  shows "title t' = title (set_fields t upd)"
    and "description t' = description (set_fields t upd)"
    and "status t' = status (set_fields t upd)"
    and "priority t' = priority (set_fields t upd)"
    and "due_date t' = due_date (set_fields t upd)"
    and "tags t' = (if u_title upd \<noteq> None \<or> u_description upd \<noteq> None
                    then extract_tags (title t') (description t') else tags t)"
    and "db' = map (\<lambda>r. if todo_id r = tid then t' else r) db"
    and "u_title upd \<noteq> Some None" and "u_status upd \<noteq> Some None"
    and "u_priority upd \<noteq> Some None"
proof -
  from get_todo_Inr[OF assms(2)] have k: "todo_id t = tid" by simp
  let ?t1 = "set_fields t upd"
  let ?t2 = "if u_title upd \<noteq> None \<or> u_description upd \<noteq> None
             then ?t1\<lparr>tags := extract_tags (title ?t1) (description ?t1)\<rparr> else ?t1"
  from assms have ok: "u_title upd \<noteq> Some None" "u_status upd \<noteq> Some None"
      "u_priority upd \<noteq> Some None"
    and r: "t' = ?t2\<lparr>updated_at := now\<rparr>"
    and d: "db' = map (\<lambda>r. if todo_id r = todo_id t then t' else r) db"
    by (auto simp: update_todo_def Let_def split: if_splits)
  show "title t' = title ?t1" "description t' = description ?t1" "status t' = status ?t1"
    "priority t' = priority ?t1" "due_date t' = due_date ?t1"
    unfolding r by simp_all
  show "tags t' = (if u_title upd \<noteq> None \<or> u_description upd \<noteq> None
                    then extract_tags (title t') (description t') else tags t)"
    unfolding r by (simp add: set_fields_frame)
  show "db' = map (\<lambda>r. if todo_id r = tid then t' else r) db" using d unfolding k .
  show "u_title upd \<noteq> Some None" "u_status upd \<noteq> Some None" "u_priority upd \<noteq> Some None"
    by (fact ok)+
qed

text \<open>The update of \<open>ex_todo\<close> with a new title alone.\<close>

lemma extract_tags_call_doctor:
  "extract_tags ''Call doctor'' None = [''health'', ''call'', ''doctor'']"
  by code_simp

lemma get_ex_todo: "get_todo [ex_todo] 1 7 = Inr ex_todo"
  by (simp add: get_todo_def ex_todo_def)

lemma update_ex_todo: "update_todo [ex_todo] 1 7 upd_title 20 = Inr ([ex_todo'], ex_todo')"
  unfolding update_todo_def get_ex_todo
  by (simp add: Let_def set_fields_def upd_title_def ex_todo_def ex_todo'_def
        extract_tags_call_doctor)

text \<open>
  Claim C8, as stated, fails: an update that supplies only a title changes the stored
  tag list, which the client did not supply. The row \<open>ex_todo\<close> (title \<^verbatim>\<open>Buy milk\<close>, tags
  \<^verbatim>\<open>shopping\<close>, \<^verbatim>\<open>milk\<close>) updated with the title \<^verbatim>\<open>Call doctor\<close> alone comes back with the
  tags \<^verbatim>\<open>health\<close>, \<^verbatim>\<open>call\<close>, \<^verbatim>\<open>doctor\<close>.
\<close>

theorem update_changes_tags_counterexample:
  "update_todo [ex_todo] 1 7 upd_title 20 = Inr ([ex_todo'], ex_todo')
   \<and> tags ex_todo' \<noteq> tags ex_todo"
proof -
  have "tags ex_todo' \<noteq> tags ex_todo"
    by (simp add: ex_todo_def ex_todo'_def)
  with update_ex_todo show ?thesis by (rule conjI)
qed

text \<open>
  Claim C8, amended. After a successful update of the row \<open>t\<close>: every field the client
  supplied has the supplied value; the tag list is regenerated, as \<open>extract_tags\<close> of the
  row's new title and description, whenever the title or the description was supplied,
  and is as it was when neither was; id, owner, creation timestamp and delete timestamp
  are as they were, and so is every field of title, description, status, priority and
  due date that was not supplied; \<open>updated_at\<close> is the time of the update; the table
  holds the new row in place of the old one and every row with another id as it was.
\<close>

theorem update_frame:
  assumes "update_todo db tid uid upd now = Inr (db', t')" and "get_todo db tid uid = Inr t"
  shows "todo_id t' = todo_id t \<and> user_id t' = user_id t \<and> created_at t' = created_at t
       \<and> deleted_at t' = deleted_at t \<and> updated_at t' = now
       \<and> (case u_title upd of None \<Rightarrow> title t' = title t | Some v \<Rightarrow> Some (title t') = v)
       \<and> (case u_description upd of None \<Rightarrow> description t' = description t
             | Some v \<Rightarrow> description t' = v)
       \<and> (case u_status upd of None \<Rightarrow> status t' = status t | Some v \<Rightarrow> Some (status t') = v)
       \<and> (case u_priority upd of None \<Rightarrow> priority t' = priority t
             | Some v \<Rightarrow> Some (priority t') = v)
       \<and> (case u_due_date upd of None \<Rightarrow> due_date t' = due_date t | Some v \<Rightarrow> due_date t' = v)
       \<and> (u_title upd \<noteq> None \<or> u_description upd \<noteq> None
            \<longrightarrow> tags t' = extract_tags (title t') (description t'))
       \<and> (u_title upd = None \<and> u_description upd = None \<longrightarrow> tags t' = tags t)
       \<and> db' = map (\<lambda>r. if todo_id r = tid then t' else r) db"
proof -
  note r = update_todo_result[OF assms]
  have 1: "case u_title upd of None \<Rightarrow> title t' = title t | Some v \<Rightarrow> Some (title t') = v"
    using r(8) unfolding r(1)
    by (cases "u_title upd") (auto simp: set_fields_unset set_fields_set)
  have 2: "case u_description upd of None \<Rightarrow> description t' = description t
             | Some v \<Rightarrow> description t' = v"
    unfolding r(2) by (cases "u_description upd") (simp_all add: set_fields_unset set_fields_set)
  have 3: "case u_status upd of None \<Rightarrow> status t' = status t | Some v \<Rightarrow> Some (status t') = v"
    using r(9) unfolding r(3)
    by (cases "u_status upd") (auto simp: set_fields_unset set_fields_set)
  have 4: "case u_priority upd of None \<Rightarrow> priority t' = priority t
             | Some v \<Rightarrow> Some (priority t') = v"
    using r(10) unfolding r(4)
    by (cases "u_priority upd") (auto simp: set_fields_unset set_fields_set)
  have 5: "case u_due_date upd of None \<Rightarrow> due_date t' = due_date t | Some v \<Rightarrow> due_date t' = v"
    unfolding r(5) by (cases "u_due_date upd") (simp_all add: set_fields_unset set_fields_set)
  have 6: "u_title upd = None \<and> u_description upd = None \<longrightarrow> tags t' = tags t"
    using r(6) by simp
  have 7: "u_title upd \<noteq> None \<or> u_description upd \<noteq> None
            \<longrightarrow> tags t' = extract_tags (title t') (description t')"
    using r(6) by simp
  from update_todo_frame[OF assms] 1 2 3 4 5 7 6 r(7) show ?thesis by (intro conjI) simp_all
qed

theorem update_frame_witness:
  "todo_id ex_todo' = todo_id ex_todo \<and> user_id ex_todo' = user_id ex_todo
   \<and> created_at ex_todo' = created_at ex_todo \<and> deleted_at ex_todo' = deleted_at ex_todo
   \<and> updated_at ex_todo' = 20 \<and> Some (title ex_todo') = Some ''Call doctor''
   \<and> description ex_todo' = description ex_todo \<and> status ex_todo' = status ex_todo
   \<and> priority ex_todo' = priority ex_todo \<and> due_date ex_todo' = due_date ex_todo
   \<and> tags ex_todo' = extract_tags (title ex_todo') (description ex_todo')"
proof -
  from update_frame[OF update_ex_todo get_ex_todo] show ?thesis by (simp add: upd_title_def)
qed

text \<open>
  Claim C9. The bounds on a row, a title of 1 to 255 characters and at most five tags,
  hold for the row a successful \<open>create_todo\<close> returns from a valid request, and a
  successful \<open>create_todo\<close> or \<open>update_todo\<close> from a valid request takes a table whose rows
  all satisfy them to a table whose rows all satisfy them.
\<close>

theorem title_and_tags_bounds_preserved:
  "(TodoCreate_valid req \<and> create_todo db new_id nc nu uid req = Inr (db1, t1)
      \<longrightarrow> todo_inv t1 \<and> ((\<forall>r \<in> set db. todo_inv r) \<longrightarrow> (\<forall>r \<in> set db1. todo_inv r)))
   \<and> (TodoUpdate_valid upd \<and> (\<forall>r \<in> set db. todo_inv r)
        \<and> update_todo db tid uid upd now = Inr (db2, t2)
      \<longrightarrow> todo_inv t2 \<and> (\<forall>r \<in> set db2. todo_inv r))"
proof (intro conjI impI)
  assume a: "TodoCreate_valid req \<and> create_todo db new_id nc nu uid req = Inr (db1, t1)"
  then have c: "db1 = db @ [t1]" "title t1 = c_title req"
    "tags t1 = extract_tags (c_title req) (c_description req)"
    using create_todo_Inr by blast+
  from a c(2,3) show i: "todo_inv t1"
    by (simp add: todo_inv_def TodoCreate_valid_def length_extract_tags)
  assume "\<forall>r \<in> set db. todo_inv r"
  with i show "\<forall>r \<in> set db1. todo_inv r" unfolding c(1) by simp
next
  assume a: "TodoUpdate_valid upd \<and> (\<forall>r \<in> set db. todo_inv r)
        \<and> update_todo db tid uid upd now = Inr (db2, t2)"
  then have u: "update_todo db tid uid upd now = Inr (db2, t2)" by simp
  then obtain t where g: "get_todo db tid uid = Inr t" by (rule update_todo_Inr)
  note r = update_todo_result[OF u g]
  from get_todo_Inr[OF g] a have it: "todo_inv t" by simp
  have ttl: "1 \<le> length (title t2) \<and> length (title t2) \<le> 255"
  proof (cases "u_title upd")
    case None
    with it show ?thesis unfolding r(1) by (simp add: set_fields_unset todo_inv_def)
  next
    case (Some v)
    with r(8) obtain s where s: "u_title upd = Some (Some s)" by (cases v) auto
    with a have "1 \<le> length s \<and> length s \<le> 255" by (simp add: TodoUpdate_valid_def)
    with s show ?thesis unfolding r(1) by (simp add: set_fields_set)
  qed
  have tgs: "length (tags t2) \<le> 5"
  proof (cases "u_title upd \<noteq> None \<or> u_description upd \<noteq> None")
    case True
    with r(6) have "tags t2 = extract_tags (title t2) (description t2)" by simp
    then show ?thesis by (simp only: length_extract_tags)
  next
    case False
    with r(6) have "tags t2 = tags t" by simp
    with it show ?thesis by (simp add: todo_inv_def)
  qed
  from ttl tgs show i2: "todo_inv t2" by (simp add: todo_inv_def)
  from a have "\<forall>r \<in> set db. todo_inv r" by simp
  with i2 show "\<forall>r \<in> set db2. todo_inv r" unfolding r(7) by auto
qed

theorem title_and_tags_bounds_preserved_witness:
  "todo_inv ex_todo \<and> list_all todo_inv [ex_todo]
   \<and> todo_inv ex_todo' \<and> list_all todo_inv [ex_todo']"
proof -
  have v: "TodoCreate_valid ex_create" by (simp add: TodoCreate_valid_def ex_create_def)
  have w: "TodoUpdate_valid upd_title" by (simp add: TodoUpdate_valid_def upd_title_def)
  have e: "\<forall>r \<in> set ([] :: Todo list). todo_inv r" by simp
  from title_and_tags_bounds_preserved[where req = ex_create and db = "[]" and new_id = 1
      and nc = 10 and nu = 11 and uid = 7 and ?db1.0 = "[ex_todo]" and ?t1.0 = ex_todo]
  have 1: "todo_inv ex_todo \<and> (\<forall>r \<in> set [ex_todo]. todo_inv r)"
    using v create_ex_todo by simp
  from title_and_tags_bounds_preserved[where db = "[ex_todo]" and upd = upd_title and tid = 1
      and uid = 7 and now = 20 and ?db2.0 = "[ex_todo']" and ?t2.0 = ex_todo']
  have 2: "todo_inv ex_todo' \<and> (\<forall>r \<in> set [ex_todo']. todo_inv r)"
    using w 1 update_ex_todo by simp
  from 1 2 show ?thesis by simp
qed

text \<open>
  Claim C10. After a successful update that supplies the title or the description, the
  tag list of the returned row, which is the row the table then holds under that id, is
  \<open>extract_tags\<close> of the row's new title and description, and \<open>extract_tags\<close> is the
  function \<open>create_todo\<close> fills the tag list with; after a successful update that
  supplies neither, the tag list is the one the row had.
\<close>

theorem update_regenerates_tags:
  assumes "update_todo db tid uid upd now = Inr (db', t')" and "get_todo db tid uid = Inr t"
  shows "(u_title upd \<noteq> None \<or> u_description upd \<noteq> None
            \<longrightarrow> tags t' = extract_tags (title t') (description t'))
       \<and> (u_title upd = None \<and> u_description upd = None \<longrightarrow> tags t' = tags t)
       \<and> t' \<in> set db' \<and> (\<forall>r \<in> set db'. todo_id r = tid \<longrightarrow> r = t')
       \<and> (create_todo db0 new_id nc nu u0 req = Inr (db1, t0)
            \<longrightarrow> tags t0 = extract_tags (title t0) (description t0))"
proof -
  note r = update_todo_result[OF assms]
  from get_todo_Inr[OF assms(2)] have t: "t \<in> set db" "todo_id t = tid" by simp_all
  have 1: "u_title upd \<noteq> None \<or> u_description upd \<noteq> None
            \<longrightarrow> tags t' = extract_tags (title t') (description t')"
    using r(6) by simp
  have 2: "u_title upd = None \<and> u_description upd = None \<longrightarrow> tags t' = tags t"
    using r(6) by simp
  let ?f = "\<lambda>r. if todo_id r = tid then t' else r"
  from t(1) have "?f t \<in> ?f ` set db" by (rule imageI)
  then have 3: "t' \<in> set db'" unfolding r(7) using t(2) by simp
  have 4: "\<forall>r \<in> set db'. todo_id r = tid \<longrightarrow> r = t'" unfolding r(7) by auto
  have 5: "create_todo db0 new_id nc nu u0 req = Inr (db1, t0)
            \<longrightarrow> tags t0 = extract_tags (title t0) (description t0)"
  proof
    assume "create_todo db0 new_id nc nu u0 req = Inr (db1, t0)"
    from create_todo_Inr[OF this] show "tags t0 = extract_tags (title t0) (description t0)"
      by simp
  qed
  from 1 2 3 4 5 show ?thesis by (intro conjI)
qed

theorem update_regenerates_tags_witness:
  "tags ex_todo' = extract_tags (title ex_todo') (description ex_todo')
   \<and> ex_todo' \<in> set [ex_todo']
   \<and> tags ex_todo = extract_tags (title ex_todo) (description ex_todo)"
proof -
  from update_regenerates_tags[OF update_ex_todo get_ex_todo,
      of "[]" 1 10 11 7 ex_create "[ex_todo]" ex_todo] create_ex_todo
  show ?thesis by (simp add: upd_title_def)
qed

section \<open>Properties of the tokens\<close>

lemma hex_val_hex_char: "d < 16 \<Longrightarrow> hex_val (hex_char d) = Some d"
  by (simp add: hex_val_def hex_char_def Let_def)

lemma hex_char_not_hyphen: "d < 16 \<Longrightarrow> hex_char d \<noteq> CHR ''-''"
proof -
  assume "d < 16"
  then have "hex_val (hex_char d) = Some d" by (rule hex_val_hex_char)
  moreover have "hex_val (CHR ''-'') = None" by (simp add: hex_val_def)
  ultimately show ?thesis by auto
qed

lemma length_hex_digits: "length (hex_digits k n) = k"
  by (induction k arbitrary: n) simp_all

lemma hex_digits_no_hyphen: "CHR ''-'' \<notin> set (hex_digits k n)"
proof (induction k arbitrary: n)
  case 0
  show ?case by simp
next
  case (Suc k)
  have "hex_char (n mod 16) \<noteq> CHR ''-''" by (rule hex_char_not_hyphen) simp
  with Suc show ?case by auto
qed

lemma parse_hex_snoc:
  "parse_hex (xs @ [c]) acc =
     (case parse_hex xs acc of
        None \<Rightarrow> None
      | Some a \<Rightarrow> (case hex_val c of None \<Rightarrow> None | Some d \<Rightarrow> Some (16 * a + d)))"
  by (induction xs arbitrary: acc) (simp_all split: option.splits)

lemma parse_hex_digits: "parse_hex (hex_digits k n) 0 = Some (n mod 16 ^ k)"
proof (induction k arbitrary: n)
  case 0
  show ?case by simp
next
  case (Suc k)
  have "n mod 16 < 16" by simp
  then have v: "hex_val (hex_char (n mod 16)) = Some (n mod 16)" by (rule hex_val_hex_char)
  have "n mod (16 * 16 ^ k) = 16 * (n div 16 mod 16 ^ k) + n mod 16"
    by (rule mod_mult2_eq)
  then show ?case by (simp add: parse_hex_snoc Suc v)
qed


lemma filter_take_drop:
  assumes "\<forall>x \<in> set h. P x"
  shows "filter P (take n h) = take n h" and "filter P (drop n h) = drop n h"
proof -
  from assms have "\<forall>x \<in> set (take n h). P x" by (blast dest: in_set_takeD)
  then show "filter P (take n h) = take n h" by (simp only: filter_True)
  from assms have "\<forall>x \<in> set (drop n h). P x" by (blast dest: in_set_dropD)
  then show "filter P (drop n h) = drop n h" by (simp only: filter_True)
qed

lemma regroup:
  "take 8 h @ take 4 (drop 8 h) @ take 4 (drop 12 h) @ take 4 (drop 16 h) @ drop 20 h = h"
proof -
  have a: "take 4 (drop 16 h) @ drop 20 h = drop 16 h"
    using append_take_drop_id[of 4 "drop 16 h"] by simp
  have b: "take 4 (drop 12 h) @ drop 16 h = drop 12 h"
    using append_take_drop_id[of 4 "drop 12 h"] by simp
  have c: "take 4 (drop 8 h) @ drop 12 h = drop 8 h"
    using append_take_drop_id[of 4 "drop 8 h"] by simp
  show ?thesis by (simp only: a b c append_take_drop_id)
qed

lemma filter_str_uuid:
  "filter (\<lambda>c. c \<noteq> CHR ''-'') (str_uuid u) = hex_digits 32 (unat u)"
proof -
  let ?h = "hex_digits 32 (unat u)"
  let ?P = "\<lambda>c. c \<noteq> CHR ''-''"
  have all: "\<forall>x \<in> set ?h. ?P x" using hex_digits_no_hyphen[of 32 "unat u"] by blast
  note f = filter_take_drop[OF all] filter_take_drop[of "drop 8 ?h" ?P]
    filter_take_drop[of "drop 12 ?h" ?P] filter_take_drop[of "drop 16 ?h" ?P]
  have d: "\<forall>x \<in> set (drop n ?h). ?P x" for n using all by (blast dest: in_set_dropD)
  have "filter ?P (str_uuid u) =
          take 8 ?h @ take 4 (drop 8 ?h) @ take 4 (drop 12 ?h) @ take 4 (drop 16 ?h)
          @ drop 20 ?h"
    unfolding str_uuid_def Let_def
    by (simp only: filter_append filter.simps filter_take_drop[OF all]
          filter_take_drop[OF d] simp_thms if_False if_True append_Nil append_Nil2)
  then show ?thesis by (simp only: regroup)
qed

lemma UUID_str_uuid: "UUID (str_uuid u) = Some u"
proof -
  have "unat u < 2 ^ 128" using unsigned_less[of u] by simp
  then have "unat u < 16 ^ 32" by simp
  then have m: "unat u mod 16 ^ 32 = unat u" by (rule mod_less)
  have p: "parse_hex (hex_digits 32 (unat u)) 0 = Some (unat u)"
    by (simp only: parse_hex_digits m)
  show ?thesis
    unfolding UUID_def Let_def filter_str_uuid
    by (simp only: length_hex_digits p) simp
qed

lemma str_uuid_nonempty: "str_uuid u \<noteq> []"
  by (simp add: str_uuid_def Let_def)


lemma timegm_mono: "a \<le> b \<Longrightarrow> timegm a \<le> timegm b"
  unfolding timegm_def by (rule zdiv_mono1) simp_all

lemma jwt_decode_issued:
  "jwt_decode (jwt_encode p (jwt_secret_key st) (jwt_algorithm st)) (jwt_secret_key st)
      [jwt_algorithm st] now =
     (case claim_exp p of
        None \<Rightarrow> Inr p
      | Some e \<Rightarrow> if e < timegm now then Inl ''Signature has expired.'' else Inr p)"
  by (simp add: jwt_encode_def)

text \<open>Verifying an issued access token, for any expected type and any time.\<close>

lemma verify_access_token:
  "verify_token st (create_access_token st u now_exp now_iat) tt now =
     (if timegm (now_exp + access_token_expire_minutes st * 60000000) < timegm now
      then Inl (TokenError ''Invalid token: Signature has expired.'')
      else if tt \<noteq> ''access'' then Inl (TokenError (''Invalid token type. Expected '' @ tt))
      else Inr \<lparr>claim_sub = Some (str_uuid u), claim_type = Some ''access'', claim_jti = None,
                claim_exp = Some (timegm (now_exp + access_token_expire_minutes st * 60000000)),
                claim_iat = Some (timegm now_iat)\<rparr>)"
  unfolding verify_token_def create_access_token_def Let_def jwt_decode_issued
  by (auto simp: str_uuid_nonempty)

lemma verify_refresh_token:
  "verify_token st (create_refresh_token st u now_exp jti now_iat) tt now =
     (if timegm (now_exp + refresh_token_expire_days st * 86400000000) < timegm now
      then Inl (TokenError ''Invalid token: Signature has expired.'')
      else if tt \<noteq> ''refresh'' then Inl (TokenError (''Invalid token type. Expected '' @ tt))
      else Inr \<lparr>claim_sub = Some (str_uuid u), claim_type = Some ''refresh'',
                claim_jti = Some (str_uuid jti),
                claim_exp = Some (timegm (now_exp + refresh_token_expire_days st * 86400000000)),
                claim_iat = Some (timegm now_iat)\<rparr>)"
  unfolding verify_token_def create_refresh_token_def Let_def jwt_decode_issued
  by (auto simp: str_uuid_nonempty)

lemma get_user_id_access_token:
  assumes "\<not> timegm (now_exp + access_token_expire_minutes st * 60000000) < timegm now"
  shows "get_user_id_from_token st (create_access_token st u now_exp now_iat) ''access'' now
           = Inr u"
  unfolding get_user_id_from_token_def verify_access_token using assms
  by (simp add: UUID_str_uuid)

text \<open>
  Claim C2. An access token verified with the expected type \<^verbatim>\<open>access\<close> no later than its
  expiry yields claims whose subject is \<open>str\<close> of the user's id, and
  \<open>get_user_id_from_token\<close> returns the id; the same holds for a refresh token verified
  with the expected type \<^verbatim>\<open>refresh\<close>. Issuing and verifying use the same settings.
\<close>

theorem token_round_trip:
  assumes "now_a \<le> exp_a + access_token_expire_minutes st * 60000000"
    and "now_r \<le> exp_r + refresh_token_expire_days st * 86400000000"
  shows "(\<exists>p. verify_token st (create_access_token st u exp_a iat_a) ''access'' now_a = Inr p
              \<and> claim_sub p = Some (str_uuid u) \<and> UUID (str_uuid u) = Some u)
       \<and> get_user_id_from_token st (create_access_token st u exp_a iat_a) ''access'' now_a
           = Inr u
       \<and> (\<exists>p. verify_token st (create_refresh_token st u exp_r jti iat_r) ''refresh'' now_r
                 = Inr p
              \<and> claim_sub p = Some (str_uuid u))
       \<and> get_user_id_from_token st (create_refresh_token st u exp_r jti iat_r) ''refresh'' now_r
           = Inr u"
proof -
  from timegm_mono[OF assms(1)]
  have a: "\<not> timegm (exp_a + access_token_expire_minutes st * 60000000) < timegm now_a"
    by simp
  from timegm_mono[OF assms(2)]
  have r: "\<not> timegm (exp_r + refresh_token_expire_days st * 86400000000) < timegm now_r"
    by simp
  let ?pa = "\<lparr>claim_sub = Some (str_uuid u), claim_type = Some ''access'', claim_jti = None,
              claim_exp = Some (timegm (exp_a + access_token_expire_minutes st * 60000000)),
              claim_iat = Some (timegm iat_a)\<rparr>"
  let ?pr = "\<lparr>claim_sub = Some (str_uuid u), claim_type = Some ''refresh'',
              claim_jti = Some (str_uuid jti),
              claim_exp = Some (timegm (exp_r + refresh_token_expire_days st * 86400000000)),
              claim_iat = Some (timegm iat_r)\<rparr>"
  have va: "verify_token st (create_access_token st u exp_a iat_a) ''access'' now_a = Inr ?pa"
    unfolding verify_access_token using a by simp
  have vr: "verify_token st (create_refresh_token st u exp_r jti iat_r) ''refresh'' now_r
              = Inr ?pr"
    unfolding verify_refresh_token using r by simp
  have ga: "get_user_id_from_token st (create_access_token st u exp_a iat_a) ''access'' now_a
              = Inr u"
    unfolding get_user_id_from_token_def va by (simp add: UUID_str_uuid)
  have gr: "get_user_id_from_token st (create_refresh_token st u exp_r jti iat_r) ''refresh''
              now_r = Inr u"
    unfolding get_user_id_from_token_def vr by (simp add: UUID_str_uuid)
  have 1: "\<exists>p. verify_token st (create_access_token st u exp_a iat_a) ''access'' now_a = Inr p
              \<and> claim_sub p = Some (str_uuid u) \<and> UUID (str_uuid u) = Some u"
    unfolding va by (simp add: UUID_str_uuid)
  have 2: "\<exists>p. verify_token st (create_refresh_token st u exp_r jti iat_r) ''refresh'' now_r
                 = Inr p \<and> claim_sub p = Some (str_uuid u)"
    unfolding vr by simp
  from 1 ga 2 gr show ?thesis by (intro conjI)
qed

theorem token_round_trip_witness:
  "get_user_id_from_token default_settings
      (create_access_token default_settings 5 0 0) ''access'' 900000000 = Inr 5
   \<and> get_user_id_from_token default_settings
      (create_refresh_token default_settings 5 0 9 0) ''refresh'' 604800000000 = Inr 5"
proof -
  have a: "(900000000 :: int) \<le> 0 + access_token_expire_minutes default_settings * 60000000"
    by (simp add: default_settings_def)
  have r: "(604800000000 :: int)
             \<le> 0 + refresh_token_expire_days default_settings * 86400000000"
    by (simp add: default_settings_def)
  from token_round_trip[OF a r, of 5 0 9 0] show ?thesis by blast
qed

text \<open>
  Claim C5, as stated, fails: \<open>jwt_decode\<close> checks the expiry before \<open>verify_token\<close> looks at
  the type, so an access token verified as \<^verbatim>\<open>refresh\<close> after its expiry fails with the
  expired-signature error, not with the type error. With the default settings, a token
  issued at time 0 and verified at second 901:
\<close>

theorem wrong_type_not_always_mismatch_counterexample:
  "verify_token default_settings (create_access_token default_settings 5 0 0) ''refresh''
      901000000 = Inl (TokenError ''Invalid token: Signature has expired.'')
   \<and> verify_token default_settings (create_access_token default_settings 5 0 0) ''refresh''
      901000000 \<noteq> Inl (TokenError ''Invalid token type. Expected refresh'')"
  unfolding verify_access_token by (simp add: default_settings_def timegm_def)

text \<open>
  Claim C5, amended. Verifying an issued access token with the expected type \<^verbatim>\<open>refresh\<close>,
  or an issued refresh token with the expected type \<^verbatim>\<open>access\<close>, always fails with a
  \<open>TokenError\<close> and never returns claims: it is the type error (\<^verbatim>\<open>Invalid token type\<close>)
  when the token's expiry second is not before the second of the verification, and the
  expired-signature error otherwise.
\<close>

theorem wrong_type_rejected:
  "verify_token st (create_access_token st u now_exp now_iat) ''refresh'' now =
     Inl (TokenError
       (if timegm (now_exp + access_token_expire_minutes st * 60000000) < timegm now
        then ''Invalid token: Signature has expired.''
        else ''Invalid token type. Expected refresh''))
   \<and> verify_token st (create_refresh_token st u now_exp jti now_iat) ''access'' now =
     Inl (TokenError
       (if timegm (now_exp + refresh_token_expire_days st * 86400000000) < timegm now
        then ''Invalid token: Signature has expired.''
        else ''Invalid token type. Expected access''))"
  unfolding verify_access_token verify_refresh_token by simp

section \<open>Properties of the endpoints\<close>

subsection \<open>The response envelope\<close>

lemma envelope_ok_handle_exception: "envelope_ok now (handle_exception now e)"
  by (simp add: envelope_ok_def handle_exception_def app_exception_handler_def
        general_exception_handler_def)

lemma data_handle_exception: "data (body (handle_exception now e)) = None"
  by (simp add: handle_exception_def app_exception_handler_def general_exception_handler_def)

lemma envelope_ok_api_response: "envelope_ok now (api_response code d now ck)"
  by (simp add: envelope_ok_def api_response_def)

lemmas envelope_intros = envelope_ok_handle_exception envelope_ok_api_response

lemma envelope_signup: "envelope_ok (rq_now_response rd) (fst (signup app dbs rd em un pw))"
  unfolding signup_def by (simp add: envelope_intros split: sum.split prod.split)

lemma envelope_login: "envelope_ok (rq_now_response rd) (fst (login app dbs rd em pw))"
  unfolding login_def by (simp add: envelope_intros split: sum.split prod.split)

lemma envelope_refresh_token:
  "envelope_ok (rq_now_response rd) (fst (refresh_token app dbs rd ck))"
  unfolding refresh_token_def by (simp add: envelope_intros split: sum.split prod.split)

lemma envelope_logout: "envelope_ok (rq_now_response rd) (fst (logout app dbs rd cr))"
  unfolding logout_def by (simp add: envelope_intros split: sum.split prod.split)

lemma envelope_get_current_user_profile:
  "envelope_ok (rq_now_response rd) (fst (get_current_user_profile app dbs rd cr))"
  unfolding get_current_user_profile_def
  by (simp add: envelope_intros split: sum.split prod.split)

lemma envelope_update_current_user_profile:
  "envelope_ok (rq_now_response rd) (fst (update_current_user_profile app dbs rd cr un))"
  unfolding update_current_user_profile_def
  by (simp add: envelope_intros split: sum.split prod.split)

lemma envelope_list_todos:
  "envelope_ok (rq_now_response rd)
     (fst (list_todos_endpoint app dbs rd cr pg per st pr due sb so))"
  unfolding list_todos_endpoint_def
  by (simp add: envelope_intros split: sum.split prod.split)

lemma envelope_create_todo:
  "envelope_ok (rq_now_response rd) (fst (create_todo_endpoint app dbs rd cr d))"
  unfolding create_todo_endpoint_def
  by (simp add: envelope_intros split: sum.split prod.split)

lemma envelope_get_todo:
  "envelope_ok (rq_now_response rd) (fst (get_todo_endpoint app dbs rd cr tid))"
  unfolding get_todo_endpoint_def
  by (simp add: envelope_intros split: sum.split prod.split)

lemma envelope_update_todo:
  "envelope_ok (rq_now_response rd) (fst (update_todo_endpoint app dbs rd cr tid d))"
  unfolding update_todo_endpoint_def
  by (simp add: envelope_intros split: sum.split prod.split)

lemma envelope_delete_todo:
  "envelope_ok (rq_now_response rd) (fst (delete_todo app dbs rd cr tid))"
  unfolding delete_todo_def
  by (simp add: envelope_intros split: sum.split prod.split)

lemma data_logout: "data (body (fst (logout app dbs rd cr))) = None"
  unfolding logout_def
  by (simp add: data_handle_exception api_response_def split: sum.split prod.split)

lemma data_delete_todo: "data (body (fst (delete_todo app dbs rd cr tid))) = None"
  unfolding delete_todo_def
  by (simp add: data_handle_exception api_response_def split: sum.split prod.split)

lemma envelope_serve: "envelope_ok (rq_now_response rd) (fst (serve app dbs rd rq))"
  by (cases rq)
     (simp_all only: serve.simps envelope_signup envelope_login envelope_refresh_token
        envelope_logout envelope_get_current_user_profile envelope_update_current_user_profile
        envelope_list_todos envelope_create_todo envelope_get_todo envelope_update_todo
        envelope_delete_todo)

lemma ex_current_user:
  "get_current_user (users ex_db) (app_settings ex_app) ex_token (rq_now_verify ex_reads)
     = Inr ex_user"
proof -
  have "\<not> timegm (0 + access_token_expire_minutes default_settings * 60000000)
          < timegm 100000000"
    by (simp add: default_settings_def timegm_def)
  then have "get_user_id_from_token default_settings ex_token ''access'' 100000000 = Inr 7"
    unfolding ex_token_def by (rule get_user_id_access_token)
  moreover have "get_by_id [ex_user] 7 = Inr (Some ex_user)"
    by (simp add: get_by_id_def ex_user_def)
  moreover have "usr_deleted_at ex_user = None" by (simp add: ex_user_def)
  ultimately show ?thesis
    by (simp add: get_current_user_def ex_db_def ex_app_def ex_reads_def)
qed

text \<open>
  Claim C6, as stated, fails: a successful delete answers with \<open>data\<close> and \<open>error\<close> both
  null. The owner of \<open>ex_todo\<close> deletes it:
\<close>

theorem delete_response_both_null_counterexample:
  "fst (serve ex_app ex_db ex_reads (DeleteTodo ex_token 1))
     = \<lparr>http_status = 200,
        body = \<lparr>success = True, data = None, error = None, timestamp = 100000009\<rparr>,
        cookie_action = None\<rparr>
   \<and> \<not> (data (body (fst (serve ex_app ex_db ex_reads (DeleteTodo ex_token 1)))) = None
          \<longleftrightarrow> error (body (fst (serve ex_app ex_db ex_reads (DeleteTodo ex_token 1)))) \<noteq> None)"
proof -
  have d: "soft_delete_todo (todos ex_db) 1 (usr_id ex_user) (rq_now_service ex_reads)
             (rq_now_flush ex_reads)
           = Inr [ex_todo\<lparr>deleted_at := Some 100000003, updated_at := 100000004\<rparr>]"
    by (simp add: soft_delete_todo_def get_todo_def ex_todo_def ex_db_def ex_user_def
          ex_reads_def)
  have "fst (serve ex_app ex_db ex_reads (DeleteTodo ex_token 1))
     = \<lparr>http_status = 200,
        body = \<lparr>success = True, data = None, error = None, timestamp = 100000009\<rparr>,
        cookie_action = None\<rparr>"
    by (simp add: delete_todo_def ex_current_user d api_response_def)
       (simp add: ex_reads_def)
  then show ?thesis by simp
qed

text \<open>
  Claim C6, amended. Every response of the endpoints of the auth, users and todos
  routers, whether the endpoint returns or raises, has a body with \<open>success\<close>, \<open>data\<close>,
  \<open>error\<close> and \<open>timestamp\<close> in which \<open>error\<close> is non-null exactly when \<open>success\<close> is false
  and \<open>data\<close> and \<open>error\<close> are never both non-null; \<open>timestamp\<close> is the reading of the
  clock that stamps the response. The responses to logout and to delete carry no data,
  also on success.
\<close>

theorem envelope_at_most_one:
  "success (body (fst (serve app dbs rd rq))) = (error (body (fst (serve app dbs rd rq))) = None)
   \<and> (data (body (fst (serve app dbs rd rq))) = None
        \<or> error (body (fst (serve app dbs rd rq))) = None)
   \<and> timestamp (body (fst (serve app dbs rd rq))) = rq_now_response rd
   \<and> data (body (fst (serve app dbs rd (Logout cr)))) = None
   \<and> data (body (fst (serve app dbs rd (DeleteTodo cr tid)))) = None"
proof -
  from envelope_serve[of rd app dbs rq]
  have "success (body (fst (serve app dbs rd rq)))
          = (error (body (fst (serve app dbs rd rq))) = None)
   \<and> (data (body (fst (serve app dbs rd rq))) = None
        \<or> error (body (fst (serve app dbs rd rq))) = None)
   \<and> timestamp (body (fst (serve app dbs rd rq))) = rq_now_response rd"
    unfolding envelope_ok_def .
  moreover have "data (body (fst (serve app dbs rd (Logout cr)))) = None"
    by (simp only: serve.simps data_logout)
  moreover have "data (body (fst (serve app dbs rd (DeleteTodo cr tid)))) = None"
    by (simp only: serve.simps data_delete_todo)
  ultimately show ?thesis by simp
qed

subsection \<open>Failed logins\<close>

lemma filter_unique_key:
  assumes "distinct (map f xs)" and "x \<in> set xs"
  shows "filter (\<lambda>y. f y = f x \<and> Q y) xs = (if Q x then [x] else [])"
  using assms
proof (induction xs)
  case Nil
  then show ?case by simp
next
  case (Cons a xs)
  show ?case
  proof (cases "a = x")
    case True
    from Cons.prems(1) have "f a \<notin> f ` set xs" by simp
    then have "\<forall>y \<in> set xs. \<not> (f y = f x \<and> Q y)" unfolding True by (metis image_eqI)
    then have "filter (\<lambda>y. f y = f x \<and> Q y) xs = []" by (simp only: filter_False)
    then show ?thesis unfolding True by simp
  next
    case False
    with Cons.prems have x: "x \<in> set xs" and d: "distinct (map f xs)" by simp_all
    from Cons.prems(1) x have "f a \<noteq> f x" by force
    with Cons.IH[OF d x] show ?thesis by simp
  qed
qed

lemma get_by_email_unknown:
  assumes "\<forall>u \<in> set tbl. \<not> (email u = lower em \<and> usr_deleted_at u = None)"
  shows "get_by_email tbl em = Inr None"
proof -
  from assms have "filter (\<lambda>u. email u = lower em \<and> usr_deleted_at u = None) tbl = []"
    by (simp only: filter_False)
  then show ?thesis by (simp add: get_by_email_def)
qed

lemma get_by_email_known:
  assumes "distinct (map email tbl)" and "user \<in> set tbl" and "email user = lower em"
    and "usr_deleted_at user = None"
  shows "get_by_email tbl em = Inr (Some user)"
proof -
  from filter_unique_key[OF assms(1,2), of "\<lambda>u. usr_deleted_at u = None"] assms(4)
  have "filter (\<lambda>u. email u = email user \<and> usr_deleted_at u = None) tbl = [user]" by simp
  then show ?thesis unfolding get_by_email_def assms(3)[symmetric] by simp
qed

text \<open>
  Claim C3. A login with an email no active user has, and a login with the email of a
  user and a password that \<^verbatim>\<open>verify_password\<close> rejects, both make \<open>authenticate_user\<close>
  raise \<open>AuthenticationError\<close> with the message \<^verbatim>\<open>Invalid credentials\<close>; the response of
  \<open>login\<close> is in both cases status 401 with the same body, in which only the timestamp,
  the handler's reading of the clock, is not a constant, no cookie is set and the
  database is as before: two such logins stamped at the same instant answer the same.
  The emails of the table are distinct (its unique index).
\<close>

theorem login_failures_indistinguishable:
  assumes "\<forall>u \<in> set (users dbs). \<not> (email u = lower em1 \<and> usr_deleted_at u = None)"
    and "distinct (map email (users dbs))"
    and "user \<in> set (users dbs)" and "email user = lower em2"
    and "usr_deleted_at user = None"
    and "\<not> app_verify_password app pw2 (password_hash user)"
  shows "authenticate_user (users dbs) (app_verify_password app) (app_settings app) tr1 em1 pw1
           = Inl (AuthenticationError ''Invalid credentials'')
       \<and> authenticate_user (users dbs) (app_verify_password app) (app_settings app) tr2 em2 pw2
           = Inl (AuthenticationError ''Invalid credentials'')
       \<and> login app dbs rd1 em1 pw1
           = (\<lparr>http_status = 401,
               body = \<lparr>success = False, data = None, error = Some ''Invalid credentials'',
                        timestamp = rq_now_response rd1\<rparr>,
               cookie_action = None\<rparr>, dbs)
       \<and> login app dbs rd2 em2 pw2
           = (\<lparr>http_status = 401,
               body = \<lparr>success = False, data = None, error = Some ''Invalid credentials'',
                        timestamp = rq_now_response rd2\<rparr>,
               cookie_action = None\<rparr>, dbs)
       \<and> (rq_now_response rd1 = rq_now_response rd2
            \<longrightarrow> login app dbs rd1 em1 pw1 = login app dbs rd2 em2 pw2)"
proof -
  have a1: "authenticate_user (users dbs) (app_verify_password app) (app_settings app) tr em1 pw1
           = Inl (AuthenticationError ''Invalid credentials'')" for tr
    unfolding authenticate_user_def get_by_email_unknown[OF assms(1)] by simp
  have a2: "authenticate_user (users dbs) (app_verify_password app) (app_settings app) tr em2 pw2
           = Inl (AuthenticationError ''Invalid credentials'')" for tr
    unfolding authenticate_user_def get_by_email_known[OF assms(2,3,4,5)]
    using assms(6) by simp
  have h: "handle_exception now (AuthenticationError ''Invalid credentials'')
           = \<lparr>http_status = 401,
               body = \<lparr>success = False, data = None, error = Some ''Invalid credentials'',
                        timestamp = now\<rparr>,
               cookie_action = None\<rparr>" for now
    by (simp add: handle_exception_def app_exception_handler_def)
  have l1: "login app dbs rd1 em1 pw1
           = (\<lparr>http_status = 401,
               body = \<lparr>success = False, data = None, error = Some ''Invalid credentials'',
                        timestamp = rq_now_response rd1\<rparr>,
               cookie_action = None\<rparr>, dbs)"
    unfolding login_def a1 by (simp add: h)
  have l2: "login app dbs rd2 em2 pw2
           = (\<lparr>http_status = 401,
               body = \<lparr>success = False, data = None, error = Some ''Invalid credentials'',
                        timestamp = rq_now_response rd2\<rparr>,
               cookie_action = None\<rparr>, dbs)"
    unfolding login_def a2 by (simp add: h)
  have e: "rq_now_response rd1 = rq_now_response rd2
            \<longrightarrow> login app dbs rd1 em1 pw1 = login app dbs rd2 em2 pw2"
    unfolding l1 l2 by simp
  from a1[of tr1] a2[of tr2] l1 l2 e show ?thesis by (intro conjI)
qed

theorem login_failures_indistinguishable_witness:
  "login ex_app ex_db ex_reads ''bob@example.com'' ''pw12345678''
     = (\<lparr>http_status = 401,
         body = \<lparr>success = False, data = None, error = Some ''Invalid credentials'',
                  timestamp = 100000009\<rparr>,
         cookie_action = None\<rparr>, ex_db)
   \<and> login ex_app ex_db ex_reads ''Alice@Example.com'' ''wrong-password''
     = (\<lparr>http_status = 401,
         body = \<lparr>success = False, data = None, error = Some ''Invalid credentials'',
                  timestamp = 100000009\<rparr>,
         cookie_action = None\<rparr>, ex_db)
   \<and> login ex_app ex_db ex_reads ''bob@example.com'' ''pw12345678''
     = login ex_app ex_db ex_reads ''Alice@Example.com'' ''wrong-password''"
proof -
  have b: "lower ''bob@example.com'' = ''bob@example.com''" by code_simp
  have a: "lower ''Alice@Example.com'' = ''alice@example.com''" by code_simp
  have 1: "\<forall>u \<in> set (users ex_db).
             \<not> (email u = lower ''bob@example.com'' \<and> usr_deleted_at u = None)"
    unfolding b by (simp add: ex_db_def ex_user_def)
  have 2: "distinct (map email (users ex_db))" by (simp add: ex_db_def)
  have 3: "ex_user \<in> set (users ex_db)" by (simp add: ex_db_def)
  have 4: "email ex_user = lower ''Alice@Example.com''" unfolding a by (simp add: ex_user_def)
  have 5: "usr_deleted_at ex_user = None" by (simp add: ex_user_def)
  have 6: "\<not> app_verify_password ex_app ''wrong-password'' (password_hash ex_user)"
    by (simp add: ex_app_def ex_user_def)
  have t: "rq_now_response ex_reads = 100000009" by (simp add: ex_reads_def)
  from login_failures_indistinguishable[OF 1 2 3 4 5 6,
      of "rq_tokens ex_reads" "''pw12345678''" "rq_tokens ex_reads" ex_reads ex_reads]
  show ?thesis unfolding t by simp
qed

end
